theory Spec2Isabelle
  imports Main
begin

section \<open>The per-isolate executor of isolated-vm (src/isolate/executor.cc)\<close>

text \<open>
  The embedding follows \<^verbatim>\<open>executor.cc\<close> function by function. Objects that the code
  reaches through pointers (executors, CPU timers, wall timers, and the members of the
  scoped \<^verbatim>\<open>Lock\<close> and \<^verbatim>\<open>Unlock\<close> objects) live in stores indexed by their address; a
  pointer is an address, \<^verbatim>\<open>nullptr\<close> is \<open>None\<close>. An \<^verbatim>\<open>IsolateEnvironment\<close>, its
  \<^verbatim>\<open>executor\<close> member and its isolate are named by one identifier. The two
  \<^verbatim>\<open>thread_local\<close> slots are functions of the thread. Durations and time points are
  integers (nanoseconds of the respective clock); the 64-bit range of
  \<^verbatim>\<open>std::chrono::nanoseconds\<close> is not modelled.

  \<^verbatim>\<open>assert\<close> is modelled as checked: a failing assertion ends the run with a value of type
  \<open>fatal\<close>. Every state-changing function therefore returns \<open>fatal + state\<close>.

  The state carries a history variable \<open>trace\<close>: each acquisition and release of an
  executor's \<^verbatim>\<open>timer_mutex\<close>, each read and write of one of the four guarded fields,
  and each acquisition and release of the isolate locker is appended at the place
  where the source performs it.
\<close>

subsection \<open>Data\<close>

type_synonym exec_id = nat
type_synonym thread_id = nat
type_synonym addr = nat

datatype fatal =
    Assert_clock_gettime          \<comment> \<open>line 60: \<^verbatim>\<open>assert(clock_gettime(...) == 0)\<close>\<close>
  | Assert_ctor_cpu_timer_null    \<comment> \<open>line 25\<close>
  | Assert_dtor_cpu_timer_this    \<comment> \<open>line 33\<close>
  | Assert_Pause_cpu_timer_this   \<comment> \<open>line 44\<close>
  | Assert_Resume_cpu_timer_null  \<comment> \<open>line 52\<close>
  | Null_PauseScope_timer         \<comment> \<open>\<^verbatim>\<open>PauseScope\<close> handed \<^verbatim>\<open>nullptr\<close>\<close>

datatype field = F_cpu_time | F_wall_time | F_cpu_timer | F_wall_timer

datatype event =
    MutexLock exec_id             \<comment> \<open>\<^verbatim>\<open>std::lock_guard lock{executor.timer_mutex}\<close>\<close>
  | MutexUnlock exec_id           \<comment> \<open>end of that guard's block\<close>
  | Rd exec_id field
  | Wr exec_id field
  | LockerAcquire exec_id         \<comment> \<open>\<^verbatim>\<open>v8::Locker\<close> constructed, \<^verbatim>\<open>v8::Unlocker\<close> destroyed\<close>
  | LockerRelease exec_id         \<comment> \<open>\<^verbatim>\<open>v8::Locker\<close> destroyed, \<^verbatim>\<open>v8::Unlocker\<close> constructed\<close>

record Executor =
  default_executor :: exec_id
  default_thread :: thread_id
  cpu_time :: int
  wall_time :: int
  cpu_timer :: "addr option"
  wall_timer :: "addr option"
  timer_holder :: bool            \<comment> \<open>\<^verbatim>\<open>env.timer_holder\<close>: \<open>True\<close> when paused\<close>

record CpuTimer =
  ct_executor :: exec_id
  ct_last :: "addr option"
  ct_time :: int

record WallTimer =
  wt_executor :: exec_id
  wt_cpu_timer :: "addr option"
  wt_time :: int

text \<open>
  The build and the operating system: whether \<^verbatim>\<open>USE_CLOCK_THREAD_CPUTIME_ID\<close> is set, and
  what \<^verbatim>\<open>clock_gettime\<close> returns.
\<close>

record platform =
  USE_CLOCK_THREAD_CPUTIME_ID :: bool
  clock_gettime_rc :: int

record state =
  thread_cputime :: "thread_id \<Rightarrow> int"         \<comment> \<open>\<^verbatim>\<open>CLOCK_THREAD_CPUTIME_ID\<close> of each thread\<close>
  steady_clock :: int                            \<comment> \<open>\<^verbatim>\<open>std::chrono::steady_clock\<close>\<close>
  executors :: "exec_id \<Rightarrow> Executor"
  cpu_timers :: "addr \<Rightarrow> CpuTimer"
  wall_timers :: "addr \<Rightarrow> WallTimer"
  scopes :: "addr \<Rightarrow> exec_id option"            \<comment> \<open>\<^verbatim>\<open>Scope::last\<close>\<close>
  lockers :: "addr \<Rightarrow> exec_id"                   \<comment> \<open>isolate of a \<^verbatim>\<open>Lock::locker\<close>\<close>
  pause_scopes :: "addr \<Rightarrow> addr option"         \<comment> \<open>\<^verbatim>\<open>PauseScope::timer\<close>\<close>
  unlockers :: "addr \<Rightarrow> exec_id"                 \<comment> \<open>isolate of an \<^verbatim>\<open>Unlock::unlocker\<close>\<close>
  current_executor :: "thread_id \<Rightarrow> exec_id option"
  cpu_timer_thread :: "thread_id \<Rightarrow> addr option"
  trace :: "event list"

subsection \<open>Helpers of the embedding\<close>

definition emit :: "event list \<Rightarrow> state \<Rightarrow> state" where
  "emit es s = s\<lparr>trace := trace s @ es\<rparr>"

definition upd_executor :: "exec_id \<Rightarrow> (Executor \<Rightarrow> Executor) \<Rightarrow> state \<Rightarrow> state" where
  "upd_executor e f s = s\<lparr>executors := (executors s)(e := f (executors s e))\<rparr>"

definition seq :: "fatal + 'a \<Rightarrow> ('a \<Rightarrow> fatal + 'b) \<Rightarrow> fatal + 'b" where
  "seq r f = (case r of Inl x \<Rightarrow> Inl x | Inr a \<Rightarrow> f a)"

text \<open>
  Time passing on thread \<open>t\<close>: its CPU clock advances by \<open>c\<close> and the steady clock by
  \<open>w\<close>. Both clocks only move forward.
\<close>

definition tick :: "thread_id \<Rightarrow> nat \<Rightarrow> nat \<Rightarrow> state \<Rightarrow> state" where
  "tick t c w s = s\<lparr>thread_cputime := (thread_cputime s)(t := thread_cputime s t + int c),
                    steady_clock := steady_clock s + int w\<rparr>"

text \<open>
  Modelled from the spec: \<^verbatim>\<open>timer_t::pause\<close> and \<^verbatim>\<open>timer_t::resume\<close> of
  \<^verbatim>\<open>lib/timer.h\<close>, which is not among the sources. The spec gives the quota timer two
  operations, pause and resume; the model keeps whether it is paused.
\<close>

definition timer_t_pause :: "bool \<Rightarrow> bool" where
  "timer_t_pause h = True"

definition timer_t_resume :: "bool \<Rightarrow> bool" where
  "timer_t_resume h = False"

subsection \<open>Executor\<close>

text \<open>
  Lines 10--13. The conditional expression assigns \<^verbatim>\<open>current_executor = this\<close> when it is
  null. The totals and the two timer pointers are not in the initialiser list.

  Modelled from the spec: the default member initialisers of \<^verbatim>\<open>executor.h\<close>, which is
  not among the sources: the totals start at zero, the timer pointers at null, and the
  quota timer is not paused.
\<close>

definition Executor_ctor :: "thread_id \<Rightarrow> exec_id \<Rightarrow> state \<Rightarrow> state" where
  "Executor_ctor t this s =
    (let s1 = (case current_executor s t of
                 None \<Rightarrow> s\<lparr>current_executor := (current_executor s)(t := Some this)\<rparr>
               | Some c \<Rightarrow> s);
         de = (case current_executor s t of None \<Rightarrow> this | Some c \<Rightarrow> c);
         dt = (if de = this then t else default_thread (executors s1 de))
     in s1\<lparr>executors := (executors s1)(this :=
          \<lparr>default_executor = de, default_thread = dt, cpu_time = 0, wall_time = 0,
           cpu_timer = None, wall_timer = None, timer_holder = False\<rparr>)\<rparr>)"

subsection \<open>CpuTimer\<close>

text \<open>Lines 57--69.\<close>

definition Now :: "platform \<Rightarrow> thread_id \<Rightarrow> state \<Rightarrow> fatal + int" where
  "Now pf t s =
    (if USE_CLOCK_THREAD_CPUTIME_ID pf
     then (if clock_gettime_rc pf = 0 then Inr (thread_cputime s t)
           else Inl Assert_clock_gettime)
     else Inr (steady_clock s))"

text \<open>Lines 21--27.\<close>

definition CpuTimer_ctor :: "platform \<Rightarrow> thread_id \<Rightarrow> addr \<Rightarrow> exec_id \<Rightarrow> state \<Rightarrow> fatal + state" where
  "CpuTimer_ctor pf t this e s =
    seq (Now pf t s) (\<lambda>now.
      let s1 = s\<lparr>cpu_timers := (cpu_timers s)(this :=
                 \<lparr>ct_executor = e, ct_last = cpu_timer_thread s t, ct_time = now\<rparr>)\<rparr>;
          s2 = s1\<lparr>cpu_timer_thread := (cpu_timer_thread s1)(t := Some this)\<rparr>;
          s3 = emit [MutexLock e, Rd e F_cpu_timer] s2
      in if cpu_timer (executors s3 e) \<noteq> None then Inl Assert_ctor_cpu_timer_null
         else Inr (emit [Wr e F_cpu_timer, MutexUnlock e]
                    (upd_executor e (\<lambda>x. x\<lparr>cpu_timer := Some this\<rparr>) s3)))"

text \<open>Lines 29--35.\<close>

definition CpuTimer_dtor :: "platform \<Rightarrow> thread_id \<Rightarrow> addr \<Rightarrow> state \<Rightarrow> fatal + state" where
  "CpuTimer_dtor pf t this s =
    (let e = ct_executor (cpu_timers s this);
         s1 = s\<lparr>cpu_timer_thread := (cpu_timer_thread s)(t := ct_last (cpu_timers s this))\<rparr>;
         s2 = emit [MutexLock e] s1
     in seq (Now pf t s2) (\<lambda>now.
       let s3 = emit [Rd e F_cpu_time, Wr e F_cpu_time]
                  (upd_executor e
                    (\<lambda>x. x\<lparr>cpu_time := cpu_time x + (now - ct_time (cpu_timers s2 this))\<rparr>) s2);
           s4 = emit [Rd e F_cpu_timer] s3
       in if cpu_timer (executors s4 e) \<noteq> Some this then Inl Assert_dtor_cpu_timer_this
          else Inr (emit [Wr e F_cpu_timer, MutexUnlock e]
                     (upd_executor e (\<lambda>x. x\<lparr>cpu_timer := None\<rparr>) s4))))"

text \<open>Lines 41--47.\<close>

definition Pause :: "platform \<Rightarrow> thread_id \<Rightarrow> addr \<Rightarrow> state \<Rightarrow> fatal + state" where
  "Pause pf t this s =
    (let e = ct_executor (cpu_timers s this);
         s1 = emit [MutexLock e] s
     in seq (Now pf t s1) (\<lambda>now.
       let s2 = emit [Rd e F_cpu_time, Wr e F_cpu_time]
                  (upd_executor e
                    (\<lambda>x. x\<lparr>cpu_time := cpu_time x + (now - ct_time (cpu_timers s1 this))\<rparr>) s1);
           s3 = emit [Rd e F_cpu_timer] s2
       in if cpu_timer (executors s3 e) \<noteq> Some this then Inl Assert_Pause_cpu_timer_this
          else Inr (emit [MutexUnlock e]
                     (upd_executor e (\<lambda>x. x\<lparr>timer_holder := timer_t_pause (timer_holder x)\<rparr>)
                       (emit [Wr e F_cpu_timer]
                         (upd_executor e (\<lambda>x. x\<lparr>cpu_timer := None\<rparr>) s3))))))"

text \<open>Lines 49--55.\<close>

definition Resume :: "platform \<Rightarrow> thread_id \<Rightarrow> addr \<Rightarrow> state \<Rightarrow> fatal + state" where
  "Resume pf t this s =
    (let e = ct_executor (cpu_timers s this);
         s1 = emit [MutexLock e] s
     in seq (Now pf t s1) (\<lambda>now.
       let s2 = s1\<lparr>cpu_timers := (cpu_timers s1)(this := (cpu_timers s1 this)\<lparr>ct_time := now\<rparr>)\<rparr>;
           s3 = emit [Rd e F_cpu_timer] s2
       in if cpu_timer (executors s3 e) \<noteq> None then Inl Assert_Resume_cpu_timer_null
          else Inr (emit [MutexUnlock e]
                     (upd_executor e (\<lambda>x. x\<lparr>timer_holder := timer_t_resume (timer_holder x)\<rparr>)
                       (emit [Wr e F_cpu_timer]
                         (upd_executor e (\<lambda>x. x\<lparr>cpu_timer := Some this\<rparr>) s3))))))"

subsection \<open>WallTimer\<close>

text \<open>
  Lines 74--86. \<^verbatim>\<open>time\<close> is not in the initialiser list: a default-constructed time point
  is the clock's epoch. The test of \<^verbatim>\<open>executor.wall_timer\<close> on line 81 precedes the
  lock guard of line 82.
\<close>

definition WallTimer_ctor :: "platform \<Rightarrow> thread_id \<Rightarrow> addr \<Rightarrow> exec_id \<Rightarrow> state \<Rightarrow> fatal + state" where
  "WallTimer_ctor pf t this e s =
    (let s1 = s\<lparr>wall_timers := (wall_timers s)(this :=
                 \<lparr>wt_executor = e, wt_cpu_timer = cpu_timer_thread s t, wt_time = 0\<rparr>)\<rparr>
     in seq (case wt_cpu_timer (wall_timers s1 this) of
               None \<Rightarrow> Inr s1
             | Some c \<Rightarrow> Pause pf t c s1) (\<lambda>s2.
       let s3 = emit [Rd e F_wall_timer] s2
       in if wall_timer (executors s3 e) = None
          then let s4 = emit [MutexLock e] s3;
                   s5 = emit [Wr e F_wall_timer]
                          (upd_executor e (\<lambda>x. x\<lparr>wall_timer := Some this\<rparr>) s4);
                   s6 = s5\<lparr>wall_timers := (wall_timers s5)(this :=
                            (wall_timers s5 this)\<lparr>wt_time := steady_clock s5\<rparr>)\<rparr>
               in Inr (emit [MutexUnlock e] s6)
          else Inr s3))"

text \<open>Lines 88--99. The test on line 94 precedes the lock guard of line 95.\<close>

definition WallTimer_dtor :: "platform \<Rightarrow> thread_id \<Rightarrow> addr \<Rightarrow> state \<Rightarrow> fatal + state" where
  "WallTimer_dtor pf t this s =
    (let e = wt_executor (wall_timers s this)
     in seq (case wt_cpu_timer (wall_timers s this) of
               None \<Rightarrow> Inr s
             | Some c \<Rightarrow> Resume pf t c s) (\<lambda>s2.
       let s3 = emit [Rd e F_wall_timer] s2
       in if wall_timer (executors s3 e) = Some this
          then let s4 = emit [MutexLock e] s3;
                   s5 = emit [Wr e F_wall_timer]
                          (upd_executor e (\<lambda>x. x\<lparr>wall_timer := None\<rparr>) s4);
                   s6 = emit [Rd e F_wall_time, Wr e F_wall_time]
                          (upd_executor e (\<lambda>x. x\<lparr>wall_time := wall_time x +
                             (steady_clock s5 - wt_time (wall_timers s5 this))\<rparr>) s5)
               in Inr (emit [MutexUnlock e] s6)
          else Inr s3))"

subsection \<open>Scope\<close>

text \<open>Lines 108--110.\<close>

definition Scope_ctor :: "thread_id \<Rightarrow> addr \<Rightarrow> exec_id \<Rightarrow> state \<Rightarrow> state" where
  "Scope_ctor t this e s =
    (let s1 = s\<lparr>scopes := (scopes s)(this := current_executor s t)\<rparr>
     in s1\<lparr>current_executor := (current_executor s1)(t := Some e)\<rparr>)"

text \<open>
  Modelled from the spec: \<^verbatim>\<open>Scope::~Scope\<close>, declared in \<^verbatim>\<open>executor.h\<close>, which is not
  among the sources. The spec: ``Destruction restores \<^verbatim>\<open>last\<close>.''
\<close>

definition Scope_dtor :: "thread_id \<Rightarrow> addr \<Rightarrow> state \<Rightarrow> state" where
  "Scope_dtor t this s = s\<lparr>current_executor := (current_executor s)(t := scopes s this)\<rparr>"

subsection \<open>Lock and Unlock\<close>

text \<open>
  The isolate locker belongs to the engine. Acquiring it is the one step that may
  block: while thread \<open>t\<close> waits, its CPU clock advances by \<open>bc\<close> and the steady clock
  by \<open>bw\<close>.
\<close>

definition Locker_ctor :: "thread_id \<Rightarrow> addr \<Rightarrow> exec_id \<Rightarrow> nat \<Rightarrow> nat \<Rightarrow> state \<Rightarrow> state" where
  "Locker_ctor t this e bc bw s =
    emit [LockerAcquire e] (tick t bc bw (s\<lparr>lockers := (lockers s)(this := e)\<rparr>))"

definition Locker_dtor :: "addr \<Rightarrow> state \<Rightarrow> state" where
  "Locker_dtor this s = emit [LockerRelease (lockers s this)] s"

definition Unlocker_ctor :: "addr \<Rightarrow> exec_id \<Rightarrow> state \<Rightarrow> state" where
  "Unlocker_ctor this e s = emit [LockerRelease e] (s\<lparr>unlockers := (unlockers s)(this := e)\<rparr>)"

definition Unlocker_dtor :: "thread_id \<Rightarrow> addr \<Rightarrow> nat \<Rightarrow> nat \<Rightarrow> state \<Rightarrow> state" where
  "Unlocker_dtor t this bc bw s = emit [LockerAcquire (unlockers s this)] (tick t bc bw s)"

text \<open>
  Lines 115--121. The members are constructed in the order of the initialiser list
  (the order the spec gives for \<^verbatim>\<open>Lock\<close>); the members of a \<^verbatim>\<open>Lock\<close> at address
  \<open>this\<close> are found at \<open>this\<close> in their stores. The engine's isolate scope and handle
  scope have no effect on the state modelled here.
\<close>

definition Lock_ctor :: "platform \<Rightarrow> thread_id \<Rightarrow> addr \<Rightarrow> exec_id \<Rightarrow> nat \<Rightarrow> nat \<Rightarrow> state \<Rightarrow> fatal + state" where
  "Lock_ctor pf t this e bc bw s =
    seq (WallTimer_ctor pf t this e (Scope_ctor t this e s)) (\<lambda>s2.
      CpuTimer_ctor pf t this e (Locker_ctor t this e bc bw s2))"

text \<open>The implicit destructor of \<^verbatim>\<open>Lock\<close>: the members' destructors in reverse order.\<close>

definition Lock_dtor :: "platform \<Rightarrow> thread_id \<Rightarrow> addr \<Rightarrow> state \<Rightarrow> fatal + state" where
  "Lock_dtor pf t this s =
    seq (CpuTimer_dtor pf t this s) (\<lambda>s1.
      seq (WallTimer_dtor pf t this (Locker_dtor this s1)) (\<lambda>s2.
        Inr (Scope_dtor t this s2)))"

text \<open>
  Modelled from the spec: \<^verbatim>\<open>CpuTimer::PauseScope\<close>, declared in \<^verbatim>\<open>executor.h\<close>, which is
  not among the sources. The spec: \<^verbatim>\<open>Unlock\<close> ``constructs a scoped pause of the current
  CpuTimer'' and its destruction ``resumes''. The spec speaks of a current timer only;
  handed a null pointer the model stops.
\<close>

definition PauseScope_ctor :: "platform \<Rightarrow> thread_id \<Rightarrow> addr \<Rightarrow> addr option \<Rightarrow> state \<Rightarrow> fatal + state" where
  "PauseScope_ctor pf t this timer s =
    (let s1 = s\<lparr>pause_scopes := (pause_scopes s)(this := timer)\<rparr>
     in case timer of None \<Rightarrow> Inl Null_PauseScope_timer | Some c \<Rightarrow> Pause pf t c s1)"

definition PauseScope_dtor :: "platform \<Rightarrow> thread_id \<Rightarrow> addr \<Rightarrow> state \<Rightarrow> fatal + state" where
  "PauseScope_dtor pf t this s =
    (case pause_scopes s this of None \<Rightarrow> Inl Null_PauseScope_timer | Some c \<Rightarrow> Resume pf t c s)"

text \<open>
  Line 126. The argument \<^verbatim>\<open>env.executor.cpu_timer\<close> is read with no lock guard in
  scope.
\<close>

definition Unlock_ctor :: "platform \<Rightarrow> thread_id \<Rightarrow> addr \<Rightarrow> exec_id \<Rightarrow> state \<Rightarrow> fatal + state" where
  "Unlock_ctor pf t this e s =
    (let s1 = emit [Rd e F_cpu_timer] s
     in seq (PauseScope_ctor pf t this (cpu_timer (executors s1 e)) s1) (\<lambda>s2.
          Inr (Unlocker_ctor this e s2)))"

definition Unlock_dtor :: "platform \<Rightarrow> thread_id \<Rightarrow> addr \<Rightarrow> nat \<Rightarrow> nat \<Rightarrow> state \<Rightarrow> fatal + state" where
  "Unlock_dtor pf t this bc bw s = PauseScope_dtor pf t this (Unlocker_dtor t this bc bw s)"

subsection \<open>Operations and runs\<close>

text \<open>
  One constructor per operation of the core, and \<open>Work\<close> for time spent between them.
  \<open>step\<close> performs one operation on thread \<open>t\<close>; \<open>exec\<close> a sequence of them, stopping at
  the first failed assertion.
\<close>

datatype op =
    Work nat nat
  | Executor_new exec_id
  | CpuTimer_new addr exec_id
  | CpuTimer_delete addr
  | CpuTimer_Pause addr
  | CpuTimer_Resume addr
  | WallTimer_new addr exec_id
  | WallTimer_delete addr
  | Scope_new addr exec_id
  | Scope_delete addr
  | Lock_new addr exec_id nat nat
  | Lock_delete addr
  | Unlock_new addr exec_id
  | Unlock_delete addr nat nat

fun step :: "platform \<Rightarrow> thread_id \<Rightarrow> op \<Rightarrow> state \<Rightarrow> fatal + state" where
  "step pf t (Work c w) s = Inr (tick t c w s)"
| "step pf t (Executor_new e) s = Inr (Executor_ctor t e s)"
| "step pf t (CpuTimer_new a e) s = CpuTimer_ctor pf t a e s"
| "step pf t (CpuTimer_delete a) s = CpuTimer_dtor pf t a s"
| "step pf t (CpuTimer_Pause a) s = Pause pf t a s"
| "step pf t (CpuTimer_Resume a) s = Resume pf t a s"
| "step pf t (WallTimer_new a e) s = WallTimer_ctor pf t a e s"
| "step pf t (WallTimer_delete a) s = WallTimer_dtor pf t a s"
| "step pf t (Scope_new a e) s = Inr (Scope_ctor t a e s)"
| "step pf t (Scope_delete a) s = Inr (Scope_dtor t a s)"
| "step pf t (Lock_new a e bc bw) s = Lock_ctor pf t a e bc bw s"
| "step pf t (Lock_delete a) s = Lock_dtor pf t a s"
| "step pf t (Unlock_new a e) s = Unlock_ctor pf t a e s"
| "step pf t (Unlock_delete a bc bw) s = Unlock_dtor pf t a bc bw s"

fun exec :: "platform \<Rightarrow> thread_id \<Rightarrow> op list \<Rightarrow> state \<Rightarrow> fatal + state" where
  "exec pf t [] s = Inr s"
| "exec pf t (x # xs) s = seq (step pf t x s) (exec pf t xs)"

text \<open>
  Properly nested scopes: a scoped object is constructed, a body runs, the object is
  destroyed. A scope opened at nesting depth \<open>d\<close> has its object at address \<open>d\<close>, as on
  a stack: objects of enclosing scopes are at lower addresses, and an address is
  used again once its scope has ended.
\<close>

datatype scoped =
    Busy nat nat
  | InScope exec_id "scoped list"
  | InCpuTimer exec_id "scoped list"
  | InWallTimer exec_id "scoped list"
  | InLock exec_id nat nat "scoped list"
  | InUnlock exec_id nat nat "scoped list"

fun flatten :: "nat \<Rightarrow> scoped \<Rightarrow> op list" and flattens :: "nat \<Rightarrow> scoped list \<Rightarrow> op list" where
  "flatten d (Busy c w) = [Work c w]"
| "flatten d (InScope e ps) = Scope_new d e # flattens (Suc d) ps @ [Scope_delete d]"
| "flatten d (InCpuTimer e ps) = CpuTimer_new d e # flattens (Suc d) ps @ [CpuTimer_delete d]"
| "flatten d (InWallTimer e ps) = WallTimer_new d e # flattens (Suc d) ps @ [WallTimer_delete d]"
| "flatten d (InLock e bc bw ps) = Lock_new d e bc bw # flattens (Suc d) ps @ [Lock_delete d]"
| "flatten d (InUnlock e bc bw ps) = Unlock_new d e # flattens (Suc d) ps @ [Unlock_delete d bc bw]"
| "flattens d [] = []"
| "flattens d (p # ps) = flatten d p @ flattens d ps"

text \<open>A state in which nothing has happened yet.\<close>

definition init :: state where
  "init = \<lparr>thread_cputime = (\<lambda>_. 0), steady_clock = 0,
           executors = (\<lambda>_. \<lparr>default_executor = 0, default_thread = 0, cpu_time = 0,
                              wall_time = 0, cpu_timer = None, wall_timer = None,
                              timer_holder = False\<rparr>),
           cpu_timers = (\<lambda>_. \<lparr>ct_executor = 0, ct_last = None, ct_time = 0\<rparr>),
           wall_timers = (\<lambda>_. \<lparr>wt_executor = 0, wt_cpu_timer = None, wt_time = 0\<rparr>),
           scopes = (\<lambda>_. None), lockers = (\<lambda>_. 0), pause_scopes = (\<lambda>_. None),
           unlockers = (\<lambda>_. 0), current_executor = (\<lambda>_. None),
           cpu_timer_thread = (\<lambda>_. None), trace = []\<rparr>"

definition posix :: platform where
  "posix = \<lparr>USE_CLOCK_THREAD_CPUTIME_ID = True, clock_gettime_rc = 0\<rparr>"

definition fallback :: platform where
  "fallback = \<lparr>USE_CLOCK_THREAD_CPUTIME_ID = False, clock_gettime_rc = 0\<rparr>"

subsection \<open>Notions used in the statements\<close>

text \<open>The clock read of \<^verbatim>\<open>Now\<close> cannot fail: either the steady clock is used, or
  \<^verbatim>\<open>clock_gettime\<close> returns 0.\<close>

definition clock_ok :: "platform \<Rightarrow> bool" where
  "clock_ok pf = (USE_CLOCK_THREAD_CPUTIME_ID pf \<longrightarrow> clock_gettime_rc pf = 0)"

text \<open>The reading \<^verbatim>\<open>Now()\<close> returns on thread \<open>t\<close> when it returns.\<close>

definition now_of :: "platform \<Rightarrow> thread_id \<Rightarrow> state \<Rightarrow> int" where
  "now_of pf t s = (if USE_CLOCK_THREAD_CPUTIME_ID pf then thread_cputime s t else steady_clock s)"

text \<open>Every state a run passes through, the first included, up to a failed assertion.\<close>

fun states :: "platform \<Rightarrow> thread_id \<Rightarrow> op list \<Rightarrow> state \<Rightarrow> state list" where
  "states pf t [] s = [s]"
| "states pf t (x # xs) s =
     s # (case step pf t x s of Inl _ \<Rightarrow> [] | Inr s' \<Rightarrow> states pf t xs s')"

text \<open>The operations of a nested scope at depth \<open>d\<close> or deeper act on objects at
  addresses \<open>d\<close> and above.\<close>

fun scoped_op :: "nat \<Rightarrow> op \<Rightarrow> bool" where
  "scoped_op d (Work c w) = True"
| "scoped_op d (Executor_new e) = False"
| "scoped_op d (CpuTimer_new a e) = (d \<le> a)"
| "scoped_op d (CpuTimer_delete a) = (d \<le> a)"
| "scoped_op d (CpuTimer_Pause a) = False"
| "scoped_op d (CpuTimer_Resume a) = False"
| "scoped_op d (WallTimer_new a e) = (d \<le> a)"
| "scoped_op d (WallTimer_delete a) = (d \<le> a)"
| "scoped_op d (Scope_new a e) = (d \<le> a)"
| "scoped_op d (Scope_delete a) = (d \<le> a)"
| "scoped_op d (Lock_new a e bc bw) = (d \<le> a)"
| "scoped_op d (Lock_delete a) = (d \<le> a)"
| "scoped_op d (Unlock_new a e) = (d \<le> a)"
| "scoped_op d (Unlock_delete a bc bw) = (d \<le> a)"

text \<open>The members of the scoped objects at address \<open>a\<close> that only their own constructor
  writes.\<close>

definition frame :: "addr \<Rightarrow> state \<Rightarrow>
    exec_id option \<times> exec_id \<times> addr option \<times> WallTimer \<times> exec_id \<times> addr option \<times> exec_id" where
  "frame a s = (scopes s a, ct_executor (cpu_timers s a), ct_last (cpu_timers s a),
                wall_timers s a, lockers s a, pause_scopes s a, unlockers s a)"

text \<open>The two thread-local slots.\<close>

definition tls :: "state \<Rightarrow> (thread_id \<Rightarrow> exec_id option) \<times> (thread_id \<Rightarrow> addr option)" where
  "tls s = (current_executor s, cpu_timer_thread s)"

text \<open>
  Within a set \<open>S\<close> of executors, every default executor is in \<open>S\<close> and has the same
  default thread as the executor that names it.
\<close>

definition chained :: "exec_id set \<Rightarrow> state \<Rightarrow> bool" where
  "chained S s = (\<forall>e\<in>S. default_executor (executors s e) \<in> S \<and>
     default_thread (executors s e) =
       default_thread (executors s (default_executor (executors s e))))"

text \<open>
  No time stamp held by a timer object lies in the future of the clock it was read
  from, and the steady clock is not before its epoch (the value of a default-constructed
  time point).
\<close>

definition sane :: "platform \<Rightarrow> thread_id \<Rightarrow> state \<Rightarrow> bool" where
  "sane pf t s = ((\<forall>c. ct_time (cpu_timers s c) \<le> now_of pf t s) \<and>
                  (\<forall>w. wt_time (wall_timers s w) \<le> steady_clock s) \<and> 0 \<le> steady_clock s)"

text \<open>No accumulated total of \<open>s\<close> exceeds that of \<open>s'\<close>.\<close>

definition le_totals :: "state \<Rightarrow> state \<Rightarrow> bool" where
  "le_totals s s' = (\<forall>e. cpu_time (executors s e) \<le> cpu_time (executors s' e) \<and>
                         wall_time (executors s e) \<le> wall_time (executors s' e))"

text \<open>The state of a thread two time units into \<^verbatim>\<open>Lock\<close> of environment \<open>e\<close>.\<close>

definition inside_Lock :: "exec_id \<Rightarrow> state" where
  "inside_Lock e = (case exec posix 0 [Lock_new 0 e 0 0, Work 2 2] init of
                      Inl _ \<Rightarrow> init | Inr s \<Rightarrow> s)"

text \<open>
  The accesses of a trace that are made while the executor's \<^verbatim>\<open>timer_mutex\<close> is not held;
  \<open>held\<close> lists the executors whose mutex is held at the start.
\<close>

fun unguarded :: "exec_id list \<Rightarrow> event list \<Rightarrow> event list" where
  "unguarded held [] = []"
| "unguarded held (MutexLock e # es) = unguarded (e # held) es"
| "unguarded held (MutexUnlock e # es) = unguarded (remove1 e held) es"
| "unguarded held (Rd e f # es) =
     (if e \<in> set held then unguarded held es else Rd e f # unguarded held es)"
| "unguarded held (Wr e f # es) =
     (if e \<in> set held then unguarded held es else Wr e f # unguarded held es)"
| "unguarded held (LockerAcquire e # es) = unguarded held es"
| "unguarded held (LockerRelease e # es) = unguarded held es"

text \<open>The events an operation has added to the trace.\<close>

definition new_events :: "state \<Rightarrow> state \<Rightarrow> event list" where
  "new_events s s' = drop (length (trace s)) (trace s')"

text \<open>
  The CPU timers of thread \<open>t\<close> that are alive are at the addresses \<open>L\<close>: an installed
  timer is one of them and belongs to the executor it is installed on, and the head of
  the thread's timer stack is one of them.
\<close>

definition wf_timers :: "addr set \<Rightarrow> thread_id \<Rightarrow> state \<Rightarrow> bool" where
  "wf_timers L t s =
     ((\<forall>e c. cpu_timer (executors s e) = Some c \<longrightarrow> c \<in> L \<and> ct_executor (cpu_timers s c) = e) \<and>
      (\<forall>h. cpu_timer_thread s t = Some h \<longrightarrow> h \<in> L))"

text \<open>Wherever a CpuTimer is installed the quota timer is not paused.\<close>

definition charging_unpaused :: "state \<Rightarrow> bool" where
  "charging_unpaused s =
     (\<forall>e. cpu_timer (executors s e) \<noteq> None \<longrightarrow> \<not> timer_holder (executors s e))"






text \<open>
  What decides whether the scoped operations of a thread return: the executor of the
  thread's current CpuTimer (the head of its timer stack) together with whether that
  timer is installed, and which executors have a CpuTimer installed.
\<close>

record view =
  current :: "(exec_id \<times> bool) option"
  charged :: "exec_id \<Rightarrow> bool"

definition view_of :: "thread_id \<Rightarrow> state \<Rightarrow> view" where
  "view_of t s =
     \<lparr>current = (case cpu_timer_thread s t of None \<Rightarrow> None
                 | Some h \<Rightarrow> Some (ct_executor (cpu_timers s h),
                     cpu_timer (executors s (ct_executor (cpu_timers s h))) = Some h)),
      charged = (\<lambda>e. cpu_timer (executors s e) \<noteq> None)\<rparr>"







section \<open>Basic facts\<close>

lemma now_of_upd [simp]:
  "now_of pf t (s\<lparr>executors := a1\<rparr>) = now_of pf t s"
  "now_of pf t (s\<lparr>cpu_timers := a2\<rparr>) = now_of pf t s"
  "now_of pf t (s\<lparr>wall_timers := a3\<rparr>) = now_of pf t s"
  "now_of pf t (s\<lparr>scopes := a4\<rparr>) = now_of pf t s"
  "now_of pf t (s\<lparr>lockers := a5\<rparr>) = now_of pf t s"
  "now_of pf t (s\<lparr>pause_scopes := a6\<rparr>) = now_of pf t s"
  "now_of pf t (s\<lparr>unlockers := a7\<rparr>) = now_of pf t s"
  "now_of pf t (s\<lparr>current_executor := a8\<rparr>) = now_of pf t s"
  "now_of pf t (s\<lparr>cpu_timer_thread := a9\<rparr>) = now_of pf t s"
  "now_of pf t (s\<lparr>trace := a10\<rparr>) = now_of pf t s"
  by (simp_all add: now_of_def)

lemma now_of_tick: "now_of pf t (tick t c w s) = now_of pf t s + (if USE_CLOCK_THREAD_CPUTIME_ID pf then int c else int w)"
  by (simp add: now_of_def tick_def)

lemma Now_eq: "Now pf t s = (if clock_ok pf then Inr (now_of pf t s) else Inl Assert_clock_gettime)"
  by (auto simp: Now_def clock_ok_def now_of_def)

lemma Pause_eq:
  "Pause pf t c s =
    (if clock_ok pf then
       if cpu_timer (executors s (ct_executor (cpu_timers s c))) = Some c then
         Inr (s\<lparr>executors := (executors s)(ct_executor (cpu_timers s c) :=
               (executors s (ct_executor (cpu_timers s c)))
                 \<lparr>cpu_time := cpu_time (executors s (ct_executor (cpu_timers s c))) +
                     (now_of pf t s - ct_time (cpu_timers s c)),
                  cpu_timer := None, timer_holder := True\<rparr>),
            trace := trace s @ [MutexLock (ct_executor (cpu_timers s c)),
               Rd (ct_executor (cpu_timers s c)) F_cpu_time, Wr (ct_executor (cpu_timers s c)) F_cpu_time,
               Rd (ct_executor (cpu_timers s c)) F_cpu_timer, Wr (ct_executor (cpu_timers s c)) F_cpu_timer,
               MutexUnlock (ct_executor (cpu_timers s c))]\<rparr>)
       else Inl Assert_Pause_cpu_timer_this
     else Inl Assert_clock_gettime)"
  by (simp add: Pause_def Now_eq emit_def upd_executor_def seq_def timer_t_pause_def Let_def)

lemma Resume_eq:
  "Resume pf t c s =
    (if clock_ok pf then
       if cpu_timer (executors s (ct_executor (cpu_timers s c))) = None then
         Inr (s\<lparr>executors := (executors s)(ct_executor (cpu_timers s c) :=
               (executors s (ct_executor (cpu_timers s c)))
                 \<lparr>cpu_timer := Some c, timer_holder := False\<rparr>),
            cpu_timers := (cpu_timers s)(c := (cpu_timers s c)\<lparr>ct_time := now_of pf t s\<rparr>),
            trace := trace s @ [MutexLock (ct_executor (cpu_timers s c)),
               Rd (ct_executor (cpu_timers s c)) F_cpu_timer, Wr (ct_executor (cpu_timers s c)) F_cpu_timer,
               MutexUnlock (ct_executor (cpu_timers s c))]\<rparr>)
       else Inl Assert_Resume_cpu_timer_null
     else Inl Assert_clock_gettime)"
  by (simp add: Resume_def Now_eq emit_def upd_executor_def seq_def timer_t_resume_def Let_def)

lemma CpuTimer_ctor_eq:
  "CpuTimer_ctor pf t this e s =
    (if clock_ok pf then
       if cpu_timer (executors s e) = None then
         Inr (s\<lparr>executors := (executors s)(e := (executors s e)\<lparr>cpu_timer := Some this\<rparr>),
            cpu_timers := (cpu_timers s)(this :=
               \<lparr>ct_executor = e, ct_last = cpu_timer_thread s t, ct_time = now_of pf t s\<rparr>),
            cpu_timer_thread := (cpu_timer_thread s)(t := Some this),
            trace := trace s @ [MutexLock e, Rd e F_cpu_timer, Wr e F_cpu_timer, MutexUnlock e]\<rparr>)
       else Inl Assert_ctor_cpu_timer_null
     else Inl Assert_clock_gettime)"
  by (simp add: CpuTimer_ctor_def Now_eq emit_def upd_executor_def seq_def Let_def)

lemma CpuTimer_dtor_eq:
  "CpuTimer_dtor pf t this s =
    (if clock_ok pf then
       if cpu_timer (executors s (ct_executor (cpu_timers s this))) = Some this then
         Inr (s\<lparr>executors := (executors s)(ct_executor (cpu_timers s this) :=
               (executors s (ct_executor (cpu_timers s this)))
                 \<lparr>cpu_time := cpu_time (executors s (ct_executor (cpu_timers s this))) +
                     (now_of pf t s - ct_time (cpu_timers s this)),
                  cpu_timer := None\<rparr>),
            cpu_timer_thread := (cpu_timer_thread s)(t := ct_last (cpu_timers s this)),
            trace := trace s @ [MutexLock (ct_executor (cpu_timers s this)),
               Rd (ct_executor (cpu_timers s this)) F_cpu_time, Wr (ct_executor (cpu_timers s this)) F_cpu_time,
               Rd (ct_executor (cpu_timers s this)) F_cpu_timer, Wr (ct_executor (cpu_timers s this)) F_cpu_timer,
               MutexUnlock (ct_executor (cpu_timers s this))]\<rparr>)
       else Inl Assert_dtor_cpu_timer_this
     else Inl Assert_clock_gettime)"
  by (simp add: CpuTimer_dtor_def Now_eq emit_def upd_executor_def seq_def Let_def)

lemma seq_simps [simp]:
  "seq (Inl x) f = Inl x"
  "seq (Inr a) f = f a"
  by (simp_all add: seq_def)

lemma seq_Inr_iff: "seq r f = Inr y \<longleftrightarrow> (\<exists>a. r = Inr a \<and> f a = Inr y)"
  by (cases r) simp_all

lemma seq_assoc: "seq (seq r f) g = seq r (\<lambda>a. seq (f a) g)"
  by (cases r) simp_all

lemma exec_append: "exec pf t (xs @ ys) s = seq (exec pf t xs s) (exec pf t ys)"
proof (induction xs arbitrary: s)
  case Nil
  show ?case by simp
next
  case (Cons x xs)
  show ?case by (cases "step pf t x s") (simp_all add: Cons.IH)
qed

lemma states_append:
  "set (states pf t (xs @ ys) s) =
     set (states pf t xs s) \<union> (case exec pf t xs s of Inl _ \<Rightarrow> {} | Inr s1 \<Rightarrow> set (states pf t ys s1))"
proof (induction xs arbitrary: s)
  case Nil
  show ?case by (cases ys) auto
next
  case (Cons x xs)
  show ?case
  proof (cases "step pf t x s")
    case (Inl a)
    then show ?thesis by simp
  next
    case (Inr s1)
    then show ?thesis using Cons.IH [of s1] by auto
  qed
qed

lemma exec_in_states: "exec pf t xs s = Inr s' \<Longrightarrow> s' \<in> set (states pf t xs s)"
proof (induction xs arbitrary: s)
  case Nil
  then show ?case by simp
next
  case (Cons x xs)
  then show ?case by (cases "step pf t x s") auto
qed


lemma exec_invariant:
  assumes "\<And>x s s'. x \<in> set xs \<Longrightarrow> I s \<Longrightarrow> step pf t x s = Inr s' \<Longrightarrow> I s'"
    and "I s"
  shows "\<forall>s' \<in> set (states pf t xs s). I s'"
  using assms
proof (induction xs arbitrary: s)
  case Nil
  then show ?case by simp
next
  case (Cons x xs)
  show ?case
  proof (cases "step pf t x s")
    case (Inl a)
    then show ?thesis using Cons.prems(2) by simp
  next
    case (Inr s1)
    have "I s1" using Cons.prems(1) [of x s s1] Cons.prems(2) Inr by simp
    moreover have "\<And>y u u'. y \<in> set xs \<Longrightarrow> I u \<Longrightarrow> step pf t y u = Inr u' \<Longrightarrow> I u'"
      using Cons.prems(1) by (meson list.set_intros(2))
    ultimately have "\<forall>s' \<in> set (states pf t xs s1). I s'"
      using Cons.IH by blast
    then show ?thesis using Inr Cons.prems(2) by simp
  qed
qed

lemma scoped_op_mono: "scoped_op d x \<Longrightarrow> d' \<le> d \<Longrightarrow> scoped_op d' x"
  by (cases x) simp_all

lemma flatten_scoped_op:
  "\<forall>x \<in> set (flatten d p). scoped_op d x"
  "\<forall>x \<in> set (flattens d ps). scoped_op d x"
  by (induction d p and d ps rule: flatten_flattens.induct)
     (auto intro: scoped_op_mono)

lemmas run_simps = init_def posix_def fallback_def clock_ok_def now_of_def

lemmas unfold_ops = Lock_ctor_def Lock_dtor_def Unlock_ctor_def Unlock_dtor_def
  PauseScope_ctor_def PauseScope_dtor_def WallTimer_ctor_def WallTimer_dtor_def
  Scope_ctor_def Scope_dtor_def Locker_ctor_def Locker_dtor_def Unlocker_ctor_def Unlocker_dtor_def
  CpuTimer_ctor_eq CpuTimer_dtor_eq Pause_eq Resume_eq
  emit_def upd_executor_def tick_def Let_def

lemma step_frame:
  "scoped_op d x \<Longrightarrow> a < d \<Longrightarrow> step pf t x s = Inr s' \<Longrightarrow> frame a s' = frame a s"
  by (cases x) (auto simp: frame_def unfold_ops split: if_splits option.splits)

lemma exec_frame:
  "\<forall>x \<in> set xs. scoped_op d x \<Longrightarrow> a < d \<Longrightarrow> exec pf t xs s = Inr s' \<Longrightarrow> frame a s' = frame a s"
proof (induction xs arbitrary: s)
  case Nil
  then show ?case by simp
next
  case (Cons x xs)
  then show ?case by (cases "step pf t x s") (auto dest: step_frame)
qed

lemma open_tls:
  "step pf t (Scope_new d e) s = Inr s1 \<Longrightarrow>
     tls s1 = ((current_executor s)(t := Some e), cpu_timer_thread s) \<and> scopes s1 d = current_executor s t"
  "step pf t (CpuTimer_new d e) s = Inr s1 \<Longrightarrow>
     tls s1 = (current_executor s, (cpu_timer_thread s)(t := Some d)) \<and>
     ct_last (cpu_timers s1 d) = cpu_timer_thread s t"
  "step pf t (WallTimer_new d e) s = Inr s1 \<Longrightarrow> tls s1 = tls s"
  "step pf t (Lock_new d e bc bw) s = Inr s1 \<Longrightarrow>
     tls s1 = ((current_executor s)(t := Some e), (cpu_timer_thread s)(t := Some d)) \<and>
     scopes s1 d = current_executor s t \<and> ct_last (cpu_timers s1 d) = cpu_timer_thread s t"
  "step pf t (Unlock_new d e) s = Inr s1 \<Longrightarrow> tls s1 = tls s"
  by (auto simp: tls_def unfold_ops split: if_splits option.splits)

lemma close_tls:
  "step pf t (Scope_delete d) s = Inr s1 \<Longrightarrow>
     tls s1 = ((current_executor s)(t := scopes s d), cpu_timer_thread s)"
  "step pf t (CpuTimer_delete d) s = Inr s1 \<Longrightarrow>
     tls s1 = (current_executor s, (cpu_timer_thread s)(t := ct_last (cpu_timers s d)))"
  "step pf t (WallTimer_delete d) s = Inr s1 \<Longrightarrow> tls s1 = tls s"
  "step pf t (Lock_delete d) s = Inr s1 \<Longrightarrow>
     tls s1 = ((current_executor s)(t := scopes s d),
               (cpu_timer_thread s)(t := ct_last (cpu_timers s d)))"
  "step pf t (Unlock_delete d bc bw) s = Inr s1 \<Longrightarrow> tls s1 = tls s"
  "step pf t (Work c w) s = Inr s1 \<Longrightarrow> tls s1 = tls s"
  by (auto simp: tls_def unfold_ops split: if_splits option.splits)

lemma exec_bracket:
  "exec pf t (x # xs @ [y]) s = Inr s' \<longleftrightarrow>
     (\<exists>s1 s2. step pf t x s = Inr s1 \<and> exec pf t xs s1 = Inr s2 \<and> step pf t y s2 = Inr s')"
  by (auto simp: exec_append seq_Inr_iff)

lemma body_frame:
  "exec pf t (flattens (Suc d) ps) s = Inr s' \<Longrightarrow> frame d s' = frame d s"
  using exec_frame [of "flattens (Suc d) ps" "Suc d" d pf t s s'] flatten_scoped_op(2) [of "Suc d" ps]
  by simp

lemma frame_fields:
  "frame a s' = frame a s \<Longrightarrow>
     scopes s' a = scopes s a \<and> ct_executor (cpu_timers s' a) = ct_executor (cpu_timers s a) \<and>
     ct_last (cpu_timers s' a) = ct_last (cpu_timers s a) \<and> wall_timers s' a = wall_timers s a \<and>
     lockers s' a = lockers s a \<and> pause_scopes s' a = pause_scopes s a \<and>
     unlockers s' a = unlockers s a"
  by (simp add: frame_def)

lemma tls_restored:
  "exec pf t (flatten d p) s = Inr s' \<Longrightarrow> tls s' = tls s"
  "exec pf t (flattens d ps) s = Inr s' \<Longrightarrow> tls s' = tls s"
proof (induction d p and d ps arbitrary: s s' and s s' rule: flatten_flattens.induct)
  case (1 d c w)
  then show ?case by (auto simp: tls_def tick_def)
next
  case (2 d e ps)
  from "2.prems" [unfolded flatten.simps exec_bracket] obtain s1 s2 where
    a: "step pf t (Scope_new d e) s = Inr s1" and b: "exec pf t (flattens (Suc d) ps) s1 = Inr s2"
    and c: "step pf t (Scope_delete d) s2 = Inr s'"
    by blast
  show ?case
    using open_tls(1) [OF a] "2.IH" [OF b] close_tls(1) [OF c] frame_fields [OF body_frame [OF b]]
    by (auto simp: tls_def)
next
  case (3 d e ps)
  from "3.prems" [unfolded flatten.simps exec_bracket] obtain s1 s2 where
    a: "step pf t (CpuTimer_new d e) s = Inr s1" and b: "exec pf t (flattens (Suc d) ps) s1 = Inr s2"
    and c: "step pf t (CpuTimer_delete d) s2 = Inr s'"
    by blast
  show ?case
    using open_tls(2) [OF a] "3.IH" [OF b] close_tls(2) [OF c] frame_fields [OF body_frame [OF b]]
    by (auto simp: tls_def)
next
  case (4 d e ps)
  from "4.prems" [unfolded flatten.simps exec_bracket] obtain s1 s2 where
    a: "step pf t (WallTimer_new d e) s = Inr s1" and b: "exec pf t (flattens (Suc d) ps) s1 = Inr s2"
    and c: "step pf t (WallTimer_delete d) s2 = Inr s'"
    by blast
  show ?case
    using open_tls(3) [OF a] "4.IH" [OF b] close_tls(3) [OF c]
    by simp
next
  case (5 d e bc bw ps)
  from "5.prems" [unfolded flatten.simps exec_bracket] obtain s1 s2 where
    a: "step pf t (Lock_new d e bc bw) s = Inr s1" and b: "exec pf t (flattens (Suc d) ps) s1 = Inr s2"
    and c: "step pf t (Lock_delete d) s2 = Inr s'"
    by blast
  show ?case
    using open_tls(4) [OF a] "5.IH" [OF b] close_tls(4) [OF c] frame_fields [OF body_frame [OF b]]
    by (auto simp: tls_def)
next
  case (6 d e bc bw ps)
  from "6.prems" [unfolded flatten.simps exec_bracket] obtain s1 s2 where
    a: "step pf t (Unlock_new d e) s = Inr s1" and b: "exec pf t (flattens (Suc d) ps) s1 = Inr s2"
    and c: "step pf t (Unlock_delete d bc bw) s2 = Inr s'"
    by blast
  show ?case
    using open_tls(5) [OF a] "6.IH" [OF b] close_tls(5) [OF c]
    by simp
next
  case (7 d)
  then show ?case by simp
next
  case (8 d p ps)
  from "8.prems" obtain s1 where
    a: "exec pf t (flatten d p) s = Inr s1" and b: "exec pf t (flattens d ps) s1 = Inr s'"
    by (auto simp: exec_append seq_Inr_iff)
  show ?case using "8.IH"(1) [OF a] "8.IH"(2) [OF b] by simp
qed

lemma states_bracket:
  "s' \<in> set (states pf t (x # xs @ [y]) s) \<longleftrightarrow>
     s' = s \<or> (\<exists>s1. step pf t x s = Inr s1 \<and>
        (s' \<in> set (states pf t xs s1) \<or>
         (\<exists>s2. exec pf t xs s1 = Inr s2 \<and> step pf t y s2 = Inr s')))"
proof (cases "step pf t x s")
  case (Inl a)
  then show ?thesis by simp
next
  case (Inr s1)
  show ?thesis
  proof (cases "exec pf t xs s1")
    case (Inl a)
    then show ?thesis using Inr by (simp add: states_append)
  next
    case (Inr s2)
    have "s2 \<in> set (states pf t xs s1)" using Inr by (rule exec_in_states)
    then show ?thesis using \<open>step pf t x s = Inr s1\<close> Inr
      by (cases "step pf t y s2") (auto simp: states_append)
  qed
qed

lemma states_flattens_Cons:
  "s' \<in> set (states pf t (flattens d (p # ps)) s) \<longleftrightarrow>
     s' \<in> set (states pf t (flatten d p) s) \<or>
     (\<exists>s1. exec pf t (flatten d p) s = Inr s1 \<and> s' \<in> set (states pf t (flattens d ps) s1))"
  by (cases "exec pf t (flatten d p) s") (simp_all add: states_append)

lemma current_stays:
  "current_executor s t \<noteq> None \<Longrightarrow> s' \<in> set (states pf t (flatten d p) s) \<Longrightarrow>
     current_executor s' t \<noteq> None"
  "current_executor s t \<noteq> None \<Longrightarrow> s' \<in> set (states pf t (flattens d ps) s) \<Longrightarrow>
     current_executor s' t \<noteq> None"
proof (induction d p and d ps arbitrary: s s' and s s' rule: flatten_flattens.induct)
  case (1 d c w)
  then show ?case by (auto simp: tick_def)
next
  case (2 d e ps)
  have fin: "\<And>u. exec pf t (flatten d (InScope e ps)) s = Inr u \<Longrightarrow> current_executor u t \<noteq> None"
    using tls_restored(1) [of pf t d "InScope e ps" s] "2.prems"(1) by (auto simp: tls_def)
  from "2.prems"(2) [unfolded flatten.simps states_bracket]
  show ?case
  proof (elim disjE exE conjE)
    assume "s' = s" then show ?thesis using "2.prems"(1) by simp
  next
    fix s1 assume a: "step pf t (Scope_new d e) s = Inr s1" and b: "s' \<in> set (states pf t (flattens (Suc d) ps) s1)"
    have "current_executor s1 t \<noteq> None" using open_tls(1) [OF a] by (auto simp: tls_def)
    then show ?thesis using "2.IH" b by blast
  next
    fix s1 s2 assume "step pf t (Scope_new d e) s = Inr s1" "exec pf t (flattens (Suc d) ps) s1 = Inr s2"
      "step pf t (Scope_delete d) s2 = Inr s'"
    then have "exec pf t (flatten d (InScope e ps)) s = Inr s'"
      unfolding flatten.simps exec_bracket by blast
    then show ?thesis by (rule fin)
  qed
next
  case (3 d e ps)
  have fin: "\<And>u. exec pf t (flatten d (InCpuTimer e ps)) s = Inr u \<Longrightarrow> current_executor u t \<noteq> None"
    using tls_restored(1) [of pf t d "InCpuTimer e ps" s] "3.prems"(1) by (auto simp: tls_def)
  from "3.prems"(2) [unfolded flatten.simps states_bracket]
  show ?case
  proof (elim disjE exE conjE)
    assume "s' = s" then show ?thesis using "3.prems"(1) by simp
  next
    fix s1 assume a: "step pf t (CpuTimer_new d e) s = Inr s1" and b: "s' \<in> set (states pf t (flattens (Suc d) ps) s1)"
    have "current_executor s1 t \<noteq> None" using open_tls(2) [OF a] "3.prems"(1) by (auto simp: tls_def)
    then show ?thesis using "3.IH" b by blast
  next
    fix s1 s2 assume "step pf t (CpuTimer_new d e) s = Inr s1" "exec pf t (flattens (Suc d) ps) s1 = Inr s2"
      "step pf t (CpuTimer_delete d) s2 = Inr s'"
    then have "exec pf t (flatten d (InCpuTimer e ps)) s = Inr s'"
      unfolding flatten.simps exec_bracket by blast
    then show ?thesis by (rule fin)
  qed
next
  case (4 d e ps)
  have fin: "\<And>u. exec pf t (flatten d (InWallTimer e ps)) s = Inr u \<Longrightarrow> current_executor u t \<noteq> None"
    using tls_restored(1) [of pf t d "InWallTimer e ps" s] "4.prems"(1) by (auto simp: tls_def)
  from "4.prems"(2) [unfolded flatten.simps states_bracket]
  show ?case
  proof (elim disjE exE conjE)
    assume "s' = s" then show ?thesis using "4.prems"(1) by simp
  next
    fix s1 assume a: "step pf t (WallTimer_new d e) s = Inr s1" and b: "s' \<in> set (states pf t (flattens (Suc d) ps) s1)"
    have "current_executor s1 t \<noteq> None" using open_tls(3) [OF a] "4.prems"(1) by (auto simp: tls_def)
    then show ?thesis using "4.IH" b by blast
  next
    fix s1 s2 assume "step pf t (WallTimer_new d e) s = Inr s1" "exec pf t (flattens (Suc d) ps) s1 = Inr s2"
      "step pf t (WallTimer_delete d) s2 = Inr s'"
    then have "exec pf t (flatten d (InWallTimer e ps)) s = Inr s'"
      unfolding flatten.simps exec_bracket by blast
    then show ?thesis by (rule fin)
  qed
next
  case (5 d e bc bw ps)
  have fin: "\<And>u. exec pf t (flatten d (InLock e bc bw ps)) s = Inr u \<Longrightarrow> current_executor u t \<noteq> None"
    using tls_restored(1) [of pf t d "InLock e bc bw ps" s] "5.prems"(1) by (auto simp: tls_def)
  from "5.prems"(2) [unfolded flatten.simps states_bracket]
  show ?case
  proof (elim disjE exE conjE)
    assume "s' = s" then show ?thesis using "5.prems"(1) by simp
  next
    fix s1 assume a: "step pf t (Lock_new d e bc bw) s = Inr s1" and b: "s' \<in> set (states pf t (flattens (Suc d) ps) s1)"
    have "current_executor s1 t \<noteq> None" using open_tls(4) [OF a] by (auto simp: tls_def)
    then show ?thesis using "5.IH" b by blast
  next
    fix s1 s2 assume "step pf t (Lock_new d e bc bw) s = Inr s1" "exec pf t (flattens (Suc d) ps) s1 = Inr s2"
      "step pf t (Lock_delete d) s2 = Inr s'"
    then have "exec pf t (flatten d (InLock e bc bw ps)) s = Inr s'"
      unfolding flatten.simps exec_bracket by blast
    then show ?thesis by (rule fin)
  qed
next
  case (6 d e bc bw ps)
  have fin: "\<And>u. exec pf t (flatten d (InUnlock e bc bw ps)) s = Inr u \<Longrightarrow> current_executor u t \<noteq> None"
    using tls_restored(1) [of pf t d "InUnlock e bc bw ps" s] "6.prems"(1) by (auto simp: tls_def)
  from "6.prems"(2) [unfolded flatten.simps states_bracket]
  show ?case
  proof (elim disjE exE conjE)
    assume "s' = s" then show ?thesis using "6.prems"(1) by simp
  next
    fix s1 assume a: "step pf t (Unlock_new d e) s = Inr s1" and b: "s' \<in> set (states pf t (flattens (Suc d) ps) s1)"
    have "current_executor s1 t \<noteq> None" using open_tls(5) [OF a] "6.prems"(1) by (auto simp: tls_def)
    then show ?thesis using "6.IH" b by blast
  next
    fix s1 s2 assume "step pf t (Unlock_new d e) s = Inr s1" "exec pf t (flattens (Suc d) ps) s1 = Inr s2"
      "step pf t (Unlock_delete d bc bw) s2 = Inr s'"
    then have "exec pf t (flatten d (InUnlock e bc bw ps)) s = Inr s'"
      unfolding flatten.simps exec_bracket by blast
    then show ?thesis by (rule fin)
  qed
next
  case (7 d)
  then show ?case by simp
next
  case (8 d p ps)
  from "8.prems"(2) [unfolded states_flattens_Cons]
  show ?case
  proof (elim disjE exE conjE)
    assume "s' \<in> set (states pf t (flatten d p) s)"
    then show ?thesis using "8.IH"(1) "8.prems"(1) by blast
  next
    fix s1 assume a: "exec pf t (flatten d p) s = Inr s1" and b: "s' \<in> set (states pf t (flattens d ps) s1)"
    have "current_executor s1 t \<noteq> None" using tls_restored(1) [OF a] "8.prems"(1) by (auto simp: tls_def)
    then show ?thesis using "8.IH"(2) b by blast
  qed
qed

section \<open>Executor construction\<close>

text \<open>
  C9. Executor construction captures the thread's current executor as
  \<open>default_executor\<close>. With no current executor the new executor is its own default and
  its default thread is the constructing thread. With a current executor \<open>c\<close> (another
  object than the one under construction) the default is \<open>c\<close> and the default thread is
  that of \<open>c\<close>. Hence in any set of executors built this way every executor has the
  default thread of its default executor: all descendants share the root's thread.
\<close>

theorem Executor_ctor_default:
  "(current_executor s t = None \<longrightarrow>
      default_executor (executors (Executor_ctor t this s) this) = this \<and>
      default_thread (executors (Executor_ctor t this s) this) = t) \<and>
   (\<forall>c. current_executor s t = Some c \<and> c \<noteq> this \<longrightarrow>
      default_executor (executors (Executor_ctor t this s) this) = c \<and>
      default_thread (executors (Executor_ctor t this s) this) = default_thread (executors s c)) \<and>
   (chained S s \<and> this \<notin> S \<and> (\<forall>c. current_executor s t = Some c \<longrightarrow> c \<in> S) \<longrightarrow>
      chained (insert this S) (Executor_ctor t this s))"
  by (auto simp: Executor_ctor_def chained_def Let_def split: option.splits)

theorem Executor_ctor_default_witness:
  "current_executor init 3 = None \<and>
   default_executor (executors (Executor_ctor 3 7 init) 7) = 7 \<and>
   default_thread (executors (Executor_ctor 3 7 init) 7) = 3 \<and>
   current_executor (Executor_ctor 3 7 init) 3 = Some 7 \<and> (7::nat) \<noteq> 8 \<and>
   default_executor (executors (Executor_ctor 3 8 (Executor_ctor 3 7 init)) 8) = 7 \<and>
   default_thread (executors (Executor_ctor 3 8 (Executor_ctor 3 7 init)) 8) = 3 \<and>
   chained {} init \<and> chained {7} (Executor_ctor 3 7 init) \<and>
   chained {7, 8} (Executor_ctor 3 8 (Executor_ctor 3 7 init))"
proof -
  have a: "current_executor init 3 = None" by (simp add: init_def)
  have b: "current_executor (Executor_ctor 3 7 init) 3 = Some 7"
    by (simp add: init_def Executor_ctor_def)
  have c0: "chained {} init" by (simp add: chained_def)
  have c1: "chained {7} (Executor_ctor 3 7 init)"
    using Executor_ctor_default [of init 3 7 "{}"] a c0 by simp
  have c2: "chained {7, 8} (Executor_ctor 3 8 (Executor_ctor 3 7 init))"
    using Executor_ctor_default [of "Executor_ctor 3 7 init" 3 8 "{7}"] b c1
    by (simp add: insert_commute)
  show ?thesis
    using Executor_ctor_default [of init 3 7 "{}"]
      Executor_ctor_default [of "Executor_ctor 3 7 init" 3 8 "{7}"] a b c0 c1 c2
    by simp
qed

text \<open>
  C10. Constructing an executor on a thread with no current executor sets the thread's
  \<open>current_executor\<close> to the new executor; with a current executor the slot is left as
  it is. Afterwards no state that properly nested scopes pass through has a null
  \<open>current_executor\<close> on that thread. (The source defines no destructor of
  \<^verbatim>\<open>Executor\<close>.)
\<close>

theorem Executor_ctor_current_executor:
  "(current_executor s t = None \<longrightarrow> current_executor (Executor_ctor t this s) t = Some this) \<and>
   (current_executor s t \<noteq> None \<longrightarrow>
      current_executor (Executor_ctor t this s) = current_executor s) \<and>
   (\<forall>s' \<in> set (states pf t (flattens d ps) (Executor_ctor t this s)).
      current_executor s' t \<noteq> None)"
proof -
  have "current_executor (Executor_ctor t this s) t \<noteq> None"
    by (auto simp: Executor_ctor_def Let_def split: option.splits)
  then have "\<forall>s' \<in> set (states pf t (flattens d ps) (Executor_ctor t this s)).
      current_executor s' t \<noteq> None"
    using current_stays(2) by blast
  then show ?thesis
    by (auto simp: Executor_ctor_def Let_def split: option.splits)
qed

theorem Executor_ctor_current_executor_witness:
  "current_executor init 0 = None \<and> current_executor (Executor_ctor 0 4 init) 0 = Some 4 \<and>
   current_executor (Executor_ctor 0 4 init) 0 \<noteq> None \<and>
   current_executor (Executor_ctor 0 5 (Executor_ctor 0 4 init)) =
     current_executor (Executor_ctor 0 4 init) \<and>
   (\<exists>s'. exec posix 0 (flattens 0 [InLock 5 0 0 [Busy 1 1]]) (Executor_ctor 0 4 init) = Inr s' \<and>
      s' \<in> set (states posix 0 (flattens 0 [InLock 5 0 0 [Busy 1 1]]) (Executor_ctor 0 4 init)) \<and>
      current_executor s' 0 \<noteq> None)"
proof -
  have a: "current_executor init 0 = None" by (simp add: init_def)
  obtain s' where e:
    "exec posix 0 (flattens 0 [InLock 5 0 0 [Busy 1 1]]) (Executor_ctor 0 4 init) = Inr s'"
    by (simp add: run_simps unfold_ops Executor_ctor_def)
  have m: "s' \<in> set (states posix 0 (flattens 0 [InLock 5 0 0 [Busy 1 1]]) (Executor_ctor 0 4 init))"
    using e by (rule exec_in_states)
  show ?thesis
    using Executor_ctor_current_executor [of init 0 4 posix 0 "[InLock 5 0 0 [Busy 1 1]]"]
      Executor_ctor_current_executor [of "Executor_ctor 0 4 init" 0 5 posix 0 "[]"] a e m
    by auto
qed

section \<open>Thread-local slots across nested scopes\<close>

text \<open>
  C7. For any sequence of properly nested Lock, Unlock, CpuTimer, WallTimer and Scope
  scopes that runs to its end, \<open>cpu_timer_thread\<close> and \<open>current_executor\<close> are on exit
  what they were on entry.
\<close>

theorem nested_scopes_restore_thread_locals:
  "exec pf t (flattens d ps) s = Inr s' \<Longrightarrow>
     cpu_timer_thread s' = cpu_timer_thread s \<and> current_executor s' = current_executor s"
  using tls_restored(2) [of pf t d ps s s'] by (simp add: tls_def)

theorem nested_scopes_restore_thread_locals_witness:
  "(\<exists>s'. exec posix 0 (flattens 0 [InLock 1 0 5 [Busy 2 2, InUnlock 1 0 3 [Busy 1 4],
        InLock 2 0 0 [InScope 1 [InWallTimer 2 [Busy 1 1]]]], InCpuTimer 1 []]) init = Inr s' \<and>
      cpu_timer_thread s' = cpu_timer_thread init \<and> current_executor s' = current_executor init)"
proof -
  obtain s' where e: "exec posix 0 (flattens 0 [InLock 1 0 5 [Busy 2 2, InUnlock 1 0 3 [Busy 1 4],
        InLock 2 0 0 [InScope 1 [InWallTimer 2 [Busy 1 1]]]], InCpuTimer 1 []]) init = Inr s'"
    by (simp add: run_simps unfold_ops)
  from nested_scopes_restore_thread_locals [OF e] e show ?thesis by simp
qed

section \<open>Wall time\<close>

lemma step_wall_kept:
  "scoped_op d x \<Longrightarrow> w0 < d \<Longrightarrow> wall_timer (executors s e) = Some w0 \<Longrightarrow>
   step pf t x s = Inr s' \<Longrightarrow>
     wall_timer (executors s' e) = Some w0 \<and> wall_time (executors s' e) = wall_time (executors s e)"
  by (cases x) (auto simp: unfold_ops split: if_splits option.splits)

lemma exec_wall_kept:
  assumes "wall_timer (executors s e) = Some w0" and "w0 < d" and "\<forall>x \<in> set xs. scoped_op d x"
  shows "\<forall>u \<in> set (states pf t xs s).
     wall_timer (executors u e) = Some w0 \<and> wall_time (executors u e) = wall_time (executors s e)"
proof (rule exec_invariant)
  show "wall_timer (executors s e) = Some w0 \<and> wall_time (executors s e) = wall_time (executors s e)"
    using assms(1) by simp
next
  fix x u u'
  assume "x \<in> set xs"
    and "wall_timer (executors u e) = Some w0 \<and> wall_time (executors u e) = wall_time (executors s e)"
    and "step pf t x u = Inr u'"
  then show "wall_timer (executors u' e) = Some w0 \<and> wall_time (executors u' e) = wall_time (executors s e)"
    using step_wall_kept [of d x w0 u e pf t u'] assms(2,3) by auto
qed

lemma Lock_new_wall:
  "step pf t (Lock_new d e bc bw) s = Inr s1 \<Longrightarrow> wall_timer (executors s e) = None \<Longrightarrow>
     wall_timer (executors s1 e) = Some d \<and> wall_time (executors s1 e) = wall_time (executors s e) \<and>
     wt_executor (wall_timers s1 d) = e \<and> wt_time (wall_timers s1 d) = steady_clock s"
  by (auto simp: unfold_ops split: if_splits option.splits)

lemma Lock_delete_wall:
  "step pf t (Lock_delete d) s2 = Inr s' \<Longrightarrow> wall_timer (executors s2 e) = Some d \<Longrightarrow>
   wt_executor (wall_timers s2 d) = e \<Longrightarrow>
     wall_timer (executors s' e) = None \<and> steady_clock s' = steady_clock s2 \<and>
     wall_time (executors s' e) =
       wall_time (executors s2 e) + (steady_clock s2 - wt_time (wall_timers s2 d))"
  by (auto simp: unfold_ops split: if_splits option.splits)

lemma outermost_Lock_wall:
  assumes "wall_timer (executors s e) = None"
    and "exec pf t (flatten d (InLock e bc bw ps)) s = Inr s'"
  shows "wall_timer (executors s' e) = None \<and>
     wall_time (executors s' e) = wall_time (executors s e) + (steady_clock s' - steady_clock s)"
proof -
  from assms(2) [unfolded flatten.simps exec_bracket] obtain s1 s2 where
    a: "step pf t (Lock_new d e bc bw) s = Inr s1" and b: "exec pf t (flattens (Suc d) ps) s1 = Inr s2"
    and c: "step pf t (Lock_delete d) s2 = Inr s'" by blast
  note n = Lock_new_wall [OF a assms(1)]
  have "s2 \<in> set (states pf t (flattens (Suc d) ps) s1)" using b by (rule exec_in_states)
  then have k: "wall_timer (executors s2 e) = Some d \<and> wall_time (executors s2 e) = wall_time (executors s1 e)"
    using exec_wall_kept [of s1 e d "Suc d" "flattens (Suc d) ps" pf t] n flatten_scoped_op(2) [of "Suc d" ps]
    by simp
  have f: "wall_timers s2 d = wall_timers s1 d" using frame_fields [OF body_frame [OF b]] by simp
  show ?thesis using Lock_delete_wall [OF c, of e] k f n by simp
qed

text \<open>
  C4. A WallTimer constructed on an executor whose \<open>wall_timer\<close> is already set changes
  neither \<open>wall_timer\<close> nor \<open>wall_time\<close> of any executor, and neither does the
  destruction of a WallTimer that is not the installed one. While an outer WallTimer at
  address \<open>w0\<close> is installed on executor \<open>e\<close>, no state that properly nested scopes at
  higher addresses pass through has another \<open>wall_timer\<close> or \<open>wall_time\<close> of \<open>e\<close>. The
  outermost \<^verbatim>\<open>Lock\<close> of \<open>e\<close> that runs to its end adds to \<open>wall_time\<close> the steady-clock
  time between its entry and its exit, once, whatever is nested in it.
\<close>

theorem nested_WallTimer_frame:
  "(\<forall>s1. wall_timer (executors s e) \<noteq> None \<and> WallTimer_ctor pf t this e s = Inr s1 \<longrightarrow>
      (\<forall>e'. wall_timer (executors s1 e') = wall_timer (executors s e') \<and>
            wall_time (executors s1 e') = wall_time (executors s e'))) \<and>
   (\<forall>s1. wall_timer (executors s (wt_executor (wall_timers s this))) \<noteq> Some this \<and>
         WallTimer_dtor pf t this s = Inr s1 \<longrightarrow>
      (\<forall>e'. wall_timer (executors s1 e') = wall_timer (executors s e') \<and>
            wall_time (executors s1 e') = wall_time (executors s e'))) \<and>
   (\<forall>w0. wall_timer (executors s e) = Some w0 \<and> w0 < d \<longrightarrow>
      (\<forall>u \<in> set (states pf t (flattens d ps) s).
         wall_timer (executors u e) = Some w0 \<and>
         wall_time (executors u e) = wall_time (executors s e))) \<and>
   (\<forall>s1. wall_timer (executors s e) = None \<and>
         exec pf t (flatten d (InLock e bc bw ps)) s = Inr s1 \<longrightarrow>
      wall_timer (executors s1 e) = None \<and>
      wall_time (executors s1 e) = wall_time (executors s e) + (steady_clock s1 - steady_clock s))"
proof (intro conjI allI impI)
  fix s1 e'
  assume "wall_timer (executors s e) \<noteq> None \<and> WallTimer_ctor pf t this e s = Inr s1"
  then show "wall_timer (executors s1 e') = wall_timer (executors s e')"
    and "wall_time (executors s1 e') = wall_time (executors s e')"
    by (auto simp: unfold_ops split: if_splits option.splits)
next
  fix s1 e'
  assume "wall_timer (executors s (wt_executor (wall_timers s this))) \<noteq> Some this \<and>
         WallTimer_dtor pf t this s = Inr s1"
  then show "wall_timer (executors s1 e') = wall_timer (executors s e')"
    and "wall_time (executors s1 e') = wall_time (executors s e')"
    by (auto simp: unfold_ops split: if_splits option.splits)
next
  fix w0
  assume "wall_timer (executors s e) = Some w0 \<and> w0 < d"
  then show "\<forall>u \<in> set (states pf t (flattens d ps) s).
     wall_timer (executors u e) = Some w0 \<and> wall_time (executors u e) = wall_time (executors s e)"
    using exec_wall_kept [of s e w0 d "flattens d ps" pf t] flatten_scoped_op(2) [of d ps] by simp
next
  fix s1
  assume "wall_timer (executors s e) = None \<and> exec pf t (flatten d (InLock e bc bw ps)) s = Inr s1"
  then show "wall_timer (executors s1 e) = None"
    and "wall_time (executors s1 e) = wall_time (executors s e) + (steady_clock s1 - steady_clock s)"
    using outermost_Lock_wall [of s e pf t d bc bw ps s1] by simp_all
qed

theorem nested_WallTimer_frame_witness:
  "wall_timer (executors (inside_Lock 1) 1) \<noteq> None \<and>
   (\<exists>s1. WallTimer_ctor posix 0 1 1 (inside_Lock 1) = Inr s1 \<and>
      wall_timer (executors s1 1) = wall_timer (executors (inside_Lock 1) 1) \<and>
      wall_time (executors s1 1) = wall_time (executors (inside_Lock 1) 1) \<and>
      wall_timer (executors s1 (wt_executor (wall_timers s1 1))) \<noteq> Some 1 \<and>
      (\<exists>s2. WallTimer_dtor posix 0 1 s1 = Inr s2 \<and>
         wall_timer (executors s2 1) = wall_timer (executors s1 1) \<and>
         wall_time (executors s2 1) = wall_time (executors s1 1))) \<and>
   wall_timer (executors (inside_Lock 1) 1) = Some 0 \<and> (0::nat) < 1 \<and>
   (\<exists>u. exec posix 0 (flattens 1 [InLock 1 0 3 [Busy 4 4]]) (inside_Lock 1) = Inr u \<and>
      u \<in> set (states posix 0 (flattens 1 [InLock 1 0 3 [Busy 4 4]]) (inside_Lock 1)) \<and>
      wall_timer (executors u 1) = Some 0 \<and>
      wall_time (executors u 1) = wall_time (executors (inside_Lock 1) 1)) \<and>
   wall_timer (executors init 1) = None \<and>
   (\<exists>s1. exec posix 0 (flatten 0 (InLock 1 0 1 [Busy 2 2, InLock 1 0 3 [Busy 4 4], Busy 5 5])) init = Inr s1 \<and>
      wall_timer (executors s1 1) = None \<and>
      wall_time (executors s1 1) = wall_time (executors init 1) + (steady_clock s1 - steady_clock init) \<and>
      wall_time (executors s1 1) = 15)"
proof -
  have a: "wall_timer (executors (inside_Lock 1) 1) = Some 0"
    by (simp add: inside_Lock_def run_simps unfold_ops)
  obtain s1 s2 where b: "WallTimer_ctor posix 0 1 1 (inside_Lock 1) = Inr s1"
    and b': "wall_timer (executors s1 (wt_executor (wall_timers s1 1))) \<noteq> Some 1"
    and c: "WallTimer_dtor posix 0 1 s1 = Inr s2"
    by (simp add: inside_Lock_def run_simps unfold_ops)
  obtain u where d: "exec posix 0 (flattens 1 [InLock 1 0 3 [Busy 4 4]]) (inside_Lock 1) = Inr u"
    by (simp add: inside_Lock_def run_simps unfold_ops)
  have d': "u \<in> set (states posix 0 (flattens 1 [InLock 1 0 3 [Busy 4 4]]) (inside_Lock 1))"
    using d by (rule exec_in_states)
  have e: "wall_timer (executors init 1) = None" by (simp add: init_def)
  obtain s3 where f: "exec posix 0 (flatten 0 (InLock 1 0 1 [Busy 2 2, InLock 1 0 3 [Busy 4 4], Busy 5 5])) init = Inr s3"
    and f': "wall_time (executors s3 1) = 15"
    by (simp add: run_simps unfold_ops)
  note T1 = nested_WallTimer_frame [of "inside_Lock 1" 1 posix 0 1 1 "[InLock 1 0 3 [Busy 4 4]]" 0 0]
  note T2 = nested_WallTimer_frame [of s1 1 posix 0 1 1 "[]" 0 0]
  note T3 = nested_WallTimer_frame [of init 1 posix 0 0 0 "[Busy 2 2, InLock 1 0 3 [Busy 4 4], Busy 5 5]" 0 1]
  have n: "wall_timer (executors (inside_Lock 1) 1) \<noteq> None" using a by simp
  have p1: "wall_timer (executors s1 1) = wall_timer (executors (inside_Lock 1) 1) \<and>
      wall_time (executors s1 1) = wall_time (executors (inside_Lock 1) 1)"
    using T1 n b by blast
  have p2: "wall_timer (executors s2 1) = wall_timer (executors s1 1) \<and>
         wall_time (executors s2 1) = wall_time (executors s1 1)"
    using T2 b' c by blast
  have z: "(0::nat) < 1" by simp
  have p3: "wall_timer (executors u 1) = Some 0 \<and>
      wall_time (executors u 1) = wall_time (executors (inside_Lock 1) 1)"
    using T1 a z d' by blast
  have p4: "wall_timer (executors s3 1) = None \<and>
      wall_time (executors s3 1) = wall_time (executors init 1) + (steady_clock s3 - steady_clock init)"
    using T3 e f by blast
  show ?thesis using n a z b b' c d d' e f f' p1 p2 p3 p4 by blast
qed

section \<open>Monotonic totals\<close>

lemma le_totals_refl [simp]: "le_totals s s"
  by (simp add: le_totals_def)

lemma le_totals_trans: "le_totals s s1 \<Longrightarrow> le_totals s1 s2 \<Longrightarrow> le_totals s s2"
  unfolding le_totals_def by (meson order_trans)

lemma sane_Pause: "sane pf t s \<Longrightarrow> Pause pf t c s = Inr s' \<Longrightarrow> sane pf t s' \<and> le_totals s s'"
  by (auto simp: sane_def le_totals_def Pause_eq split: if_splits)

lemma sane_Resume: "sane pf t s \<Longrightarrow> Resume pf t c s = Inr s' \<Longrightarrow> sane pf t s' \<and> le_totals s s'"
  by (auto simp: sane_def le_totals_def Resume_eq split: if_splits)

lemma sane_CpuTimer_ctor:
  "sane pf t s \<Longrightarrow> CpuTimer_ctor pf t a e s = Inr s' \<Longrightarrow> sane pf t s' \<and> le_totals s s'"
  by (auto simp: sane_def le_totals_def CpuTimer_ctor_eq split: if_splits)

lemma sane_CpuTimer_dtor:
  "sane pf t s \<Longrightarrow> CpuTimer_dtor pf t a s = Inr s' \<Longrightarrow> sane pf t s' \<and> le_totals s s'"
  by (auto simp: sane_def le_totals_def CpuTimer_dtor_eq split: if_splits)

lemma sane_tick: "sane pf t s \<Longrightarrow> sane pf t (tick t c w s) \<and> le_totals s (tick t c w s)"
  by (auto simp: sane_def le_totals_def tick_def now_of_def intro: order_trans)

lemma sane_emit [simp]: "sane pf t (emit es s) = sane pf t s"
  by (simp add: sane_def emit_def)

lemma le_totals_emit [simp]: "le_totals s (emit es s') = le_totals s s'" "le_totals (emit es s) s' = le_totals s s'"
  by (simp_all add: le_totals_def emit_def)

lemma sane_WallTimer_ctor:
  assumes "sane pf t s" and "WallTimer_ctor pf t a e s = Inr s'"
  shows "sane pf t s' \<and> le_totals s s'"
proof -
  let ?s1 = "s\<lparr>wall_timers := (wall_timers s)(a :=
                 \<lparr>wt_executor = e, wt_cpu_timer = cpu_timer_thread s t, wt_time = 0\<rparr>)\<rparr>"
  have s1: "sane pf t ?s1 \<and> le_totals s ?s1"
    using assms(1) by (auto simp: sane_def le_totals_def)
  obtain s2 where p: "(case cpu_timer_thread s t of None \<Rightarrow> Inr ?s1 | Some c \<Rightarrow> Pause pf t c ?s1) = Inr s2"
    and r: "s' = (if wall_timer (executors s2 e) = None
       then (s2\<lparr>executors := (executors s2)(e := (executors s2 e)\<lparr>wall_timer := Some a\<rparr>),
                wall_timers := (wall_timers s2)(a := (wall_timers s2 a)\<lparr>wt_time := steady_clock s2\<rparr>),
                trace := trace s2 @ [Rd e F_wall_timer, MutexLock e, Wr e F_wall_timer, MutexUnlock e]\<rparr>)
       else s2\<lparr>trace := trace s2 @ [Rd e F_wall_timer]\<rparr>)"
    using assms(2)
    by (auto simp: WallTimer_ctor_def seq_Inr_iff emit_def upd_executor_def Let_def split: if_splits)
  have s2: "sane pf t s2 \<and> le_totals s s2"
  proof (cases "cpu_timer_thread s t")
    case None
    then show ?thesis using p s1 by auto
  next
    case (Some c)
    then have "Pause pf t c ?s1 = Inr s2" using p by simp
    from sane_Pause [OF conjunct1 [OF s1] this] s1 show ?thesis
      by (auto intro: le_totals_trans)
  qed
  show ?thesis using s2 unfolding r
    by (auto simp: sane_def le_totals_def now_of_def)
qed

lemma sane_WallTimer_dtor:
  assumes "sane pf t s" and "WallTimer_dtor pf t a s = Inr s'"
  shows "sane pf t s' \<and> le_totals s s'"
proof -
  let ?e = "wt_executor (wall_timers s a)"
  obtain s2 where p: "(case wt_cpu_timer (wall_timers s a) of None \<Rightarrow> Inr s | Some c \<Rightarrow> Resume pf t c s) = Inr s2"
    and r: "s' = (if wall_timer (executors s2 ?e) = Some a
       then (s2\<lparr>executors := (executors s2)(?e := (executors s2 ?e)\<lparr>wall_timer := None,
                  wall_time := wall_time (executors s2 ?e) + (steady_clock s2 - wt_time (wall_timers s2 a))\<rparr>),
                trace := trace s2 @ [Rd ?e F_wall_timer, MutexLock ?e, Wr ?e F_wall_timer,
                   Rd ?e F_wall_time, Wr ?e F_wall_time, MutexUnlock ?e]\<rparr>)
       else s2\<lparr>trace := trace s2 @ [Rd ?e F_wall_timer]\<rparr>)"
    using assms(2)
    by (auto simp: WallTimer_dtor_def seq_Inr_iff emit_def upd_executor_def Let_def split: if_splits)
  have s2: "sane pf t s2 \<and> le_totals s s2"
  proof (cases "wt_cpu_timer (wall_timers s a)")
    case None
    then show ?thesis using p assms(1) by auto
  next
    case (Some c)
    then have "Resume pf t c s = Inr s2" using p by simp
    from sane_Resume [OF assms(1) this] show ?thesis .
  qed
  have t1: "wt_time (wall_timers s2 a) \<le> steady_clock s2" using s2 by (simp add: sane_def)
  have t2: "wall_time (executors s ?e) \<le> wall_time (executors s2 ?e)"
    using s2 by (simp add: le_totals_def)
  have k: "wall_time (executors s ?e) \<le>
      wall_time (executors s2 ?e) + (steady_clock s2 - wt_time (wall_timers s2 a))"
    using t1 t2 by linarith
  show ?thesis using s2 k unfolding r
    by (auto simp: sane_def le_totals_def now_of_def)
qed

lemma sane_Scope [simp]:
  "sane pf t (Scope_ctor t a e s) = sane pf t s" "sane pf t (Scope_dtor t a s) = sane pf t s"
  "le_totals s (Scope_ctor t a e s)" "le_totals s (Scope_dtor t a s)"
  by (simp_all add: sane_def le_totals_def Scope_ctor_def Scope_dtor_def Let_def now_of_def)

lemma sane_Locker:
  "sane pf t s \<Longrightarrow> sane pf t (Locker_ctor t a e bc bw s) \<and> le_totals s (Locker_ctor t a e bc bw s)"
  "sane pf t s \<Longrightarrow> sane pf t (Locker_dtor a s) \<and> le_totals s (Locker_dtor a s)"
  "sane pf t s \<Longrightarrow> sane pf t (Unlocker_ctor a e s) \<and> le_totals s (Unlocker_ctor a e s)"
  "sane pf t s \<Longrightarrow> sane pf t (Unlocker_dtor t a bc bw s) \<and> le_totals s (Unlocker_dtor t a bc bw s)"
  by (auto simp: sane_def le_totals_def Locker_ctor_def Locker_dtor_def Unlocker_ctor_def
      Unlocker_dtor_def tick_def emit_def now_of_def intro: order_trans)

lemma sane_Lock_ctor:
  assumes "sane pf t s" and "Lock_ctor pf t a e bc bw s = Inr s'"
  shows "sane pf t s' \<and> le_totals s s'"
proof -
  from assms(2) obtain s2 where
    w: "WallTimer_ctor pf t a e (Scope_ctor t a e s) = Inr s2"
    and c: "CpuTimer_ctor pf t a e (Locker_ctor t a e bc bw s2) = Inr s'"
    by (auto simp: Lock_ctor_def seq_Inr_iff)
  have 1: "sane pf t (Scope_ctor t a e s)" using assms(1) by simp
  note 2 = sane_WallTimer_ctor [OF 1 w]
  note 3 = sane_Locker(1) [OF conjunct1 [OF 2], of a e bc bw]
  note 4 = sane_CpuTimer_ctor [OF conjunct1 [OF 3] c]
  have "le_totals s (Scope_ctor t a e s)" by simp
  then show ?thesis using 2 3 4 by (blast intro: le_totals_trans)
qed

lemma sane_Lock_dtor:
  assumes "sane pf t s" and "Lock_dtor pf t a s = Inr s'"
  shows "sane pf t s' \<and> le_totals s s'"
proof -
  from assms(2) obtain s1 s2 where
    c: "CpuTimer_dtor pf t a s = Inr s1"
    and w: "WallTimer_dtor pf t a (Locker_dtor a s1) = Inr s2"
    and r: "s' = Scope_dtor t a s2"
    by (auto simp: Lock_dtor_def seq_Inr_iff)
  note 1 = sane_CpuTimer_dtor [OF assms(1) c]
  note 2 = sane_Locker(2) [OF conjunct1 [OF 1], of a]
  note 3 = sane_WallTimer_dtor [OF conjunct1 [OF 2] w]
  have "le_totals s2 s'" "sane pf t s' = sane pf t s2" unfolding r by simp_all
  then show ?thesis using 1 2 3 by (blast intro: le_totals_trans)
qed

lemma sane_Unlock_ctor:
  assumes "sane pf t s" and "Unlock_ctor pf t a e s = Inr s'"
  shows "sane pf t s' \<and> le_totals s s'"
proof -
  let ?s1 = "(emit [Rd e F_cpu_timer] s)\<lparr>pause_scopes := (pause_scopes (emit [Rd e F_cpu_timer] s))
      (a := cpu_timer (executors (emit [Rd e F_cpu_timer] s) e))\<rparr>"
  from assms(2) obtain c s2 where
    p: "Pause pf t c ?s1 = Inr s2" and r: "s' = Unlocker_ctor a e s2"
    by (auto simp: Unlock_ctor_def PauseScope_ctor_def seq_Inr_iff Let_def split: option.splits)
  have 1: "sane pf t ?s1 \<and> le_totals s ?s1" using assms(1)
    by (simp add: sane_def le_totals_def emit_def)
  note 2 = sane_Pause [OF conjunct1 [OF 1] p]
  note 3 = sane_Locker(3) [OF conjunct1 [OF 2], of a e]
  show ?thesis using 1 2 3 unfolding r by (blast intro: le_totals_trans)
qed

lemma sane_Unlock_dtor:
  assumes "sane pf t s" and "Unlock_dtor pf t a bc bw s = Inr s'"
  shows "sane pf t s' \<and> le_totals s s'"
proof -
  from assms(2) obtain c where
    p: "Resume pf t c (Unlocker_dtor t a bc bw s) = Inr s'"
    by (auto simp: Unlock_dtor_def PauseScope_dtor_def split: option.splits)
  note 1 = sane_Locker(4) [OF assms(1), of a bc bw]
  note 2 = sane_Resume [OF conjunct1 [OF 1] p]
  show ?thesis using 1 2 by (blast intro: le_totals_trans)
qed

lemma sane_Executor_ctor:
  "sane pf t s \<Longrightarrow> sane pf t (Executor_ctor t this s) \<and>
     (\<forall>e. e \<noteq> this \<longrightarrow> cpu_time (executors s e) \<le> cpu_time (executors (Executor_ctor t this s) e) \<and>
           wall_time (executors s e) \<le> wall_time (executors (Executor_ctor t this s) e))"
  by (auto simp: sane_def Executor_ctor_def Let_def now_of_def split: option.splits)

lemma step_sane_mono:
  assumes "sane pf t s" and "step pf t x s = Inr s'"
  shows "sane pf t s' \<and> (x \<noteq> Executor_new e \<longrightarrow>
       cpu_time (executors s e) \<le> cpu_time (executors s' e) \<and>
       wall_time (executors s e) \<le> wall_time (executors s' e))"
proof (cases x)
  case (Work c w)
  then show ?thesis using assms sane_tick [of pf t s c w] by (auto simp: le_totals_def)
next
  case (Executor_new e')
  then show ?thesis using assms sane_Executor_ctor [of pf t s e'] by auto
next
  case (CpuTimer_new a e')
  then show ?thesis using assms sane_CpuTimer_ctor [of pf t s a e' s'] by (auto simp: le_totals_def)
next
  case (CpuTimer_delete a)
  then show ?thesis using assms sane_CpuTimer_dtor [of pf t s a s'] by (auto simp: le_totals_def)
next
  case (CpuTimer_Pause a)
  then show ?thesis using assms sane_Pause [of pf t s a s'] by (auto simp: le_totals_def)
next
  case (CpuTimer_Resume a)
  then show ?thesis using assms sane_Resume [of pf t s a s'] by (auto simp: le_totals_def)
next
  case (WallTimer_new a e')
  then show ?thesis using assms sane_WallTimer_ctor [of pf t s a e' s'] by (auto simp: le_totals_def)
next
  case (WallTimer_delete a)
  then show ?thesis using assms sane_WallTimer_dtor [of pf t s a s'] by (auto simp: le_totals_def)
next
  case (Scope_new a e')
  then show ?thesis using assms sane_Scope(3) [of s t a e'] by (auto simp: le_totals_def)
next
  case (Scope_delete a)
  then show ?thesis using assms sane_Scope(4) [of s t a] by (auto simp: le_totals_def)
next
  case (Lock_new a e' bc bw)
  then show ?thesis using assms sane_Lock_ctor [of pf t s a e' bc bw s'] by (auto simp: le_totals_def)
next
  case (Lock_delete a)
  then show ?thesis using assms sane_Lock_dtor [of pf t s a s'] by (auto simp: le_totals_def)
next
  case (Unlock_new a e')
  then show ?thesis using assms sane_Unlock_ctor [of pf t s a e' s'] by (auto simp: le_totals_def)
next
  case (Unlock_delete a bc bw)
  then show ?thesis using assms sane_Unlock_dtor [of pf t s a bc bw s'] by (auto simp: le_totals_def)
qed

text \<open>
  C6. The clocks only move forward (\<open>tick\<close> adds natural numbers). From a state in which
  no timer holds a time stamp from the future, no sequence of operations of the core
  decreases \<open>cpu_time\<close> or \<open>wall_time\<close> of an executor; the construction of the executor
  itself, which starts its totals, is left out.
\<close>

theorem totals_monotonic:
  "sane pf t s \<Longrightarrow> exec pf t xs s = Inr s' \<Longrightarrow> Executor_new e \<notin> set xs \<Longrightarrow>
     cpu_time (executors s e) \<le> cpu_time (executors s' e) \<and>
     wall_time (executors s e) \<le> wall_time (executors s' e) \<and> sane pf t s'"
proof (induction xs arbitrary: s)
  case Nil
  then show ?case by simp
next
  case (Cons x xs)
  from Cons.prems(2) obtain s1 where a: "step pf t x s = Inr s1" and b: "exec pf t xs s1 = Inr s'"
    by (auto simp: seq_Inr_iff)
  from step_sane_mono [OF Cons.prems(1) a, of e] Cons.prems(3)
  have 1: "sane pf t s1" "cpu_time (executors s e) \<le> cpu_time (executors s1 e)"
    "wall_time (executors s e) \<le> wall_time (executors s1 e)" by auto
  from Cons.IH [OF 1(1) b] Cons.prems(3) 1 show ?case by auto
qed

theorem totals_monotonic_witness:
  "sane fallback 0 init \<and>
   (\<exists>s'. exec fallback 0 [Lock_new 0 1 0 4, Work 3 3, CpuTimer_Pause 0, Work 2 2,
        CpuTimer_Resume 0, Work 1 1, Lock_delete 0] init = Inr s' \<and>
      Executor_new 1 \<notin> set [Lock_new 0 1 0 4, Work 3 3, CpuTimer_Pause 0, Work 2 2,
        CpuTimer_Resume 0, Work 1 1, Lock_delete 0] \<and>
      cpu_time (executors init 1) \<le> cpu_time (executors s' 1) \<and>
      wall_time (executors init 1) \<le> wall_time (executors s' 1) \<and>
      cpu_time (executors s' 1) = 4 \<and> wall_time (executors s' 1) = 10)"
proof -
  have a: "sane fallback 0 init" by (simp add: sane_def run_simps)
  obtain s' where e: "exec fallback 0 [Lock_new 0 1 0 4, Work 3 3, CpuTimer_Pause 0, Work 2 2,
        CpuTimer_Resume 0, Work 1 1, Lock_delete 0] init = Inr s'"
    and v: "cpu_time (executors s' 1) = 4" "wall_time (executors s' 1) = 10"
    by (simp add: run_simps unfold_ops)
  have n: "Executor_new 1 \<notin> set [Lock_new 0 1 0 4, Work 3 3, CpuTimer_Pause 0, Work 2 2,
        CpuTimer_Resume 0, Work 1 1, Lock_delete 0]" by simp
  from totals_monotonic [OF a e n] a e n v show ?thesis by blast
qed

section \<open>Order of the steps of Lock\<close>

lemma Lock_ctor_trace:
  assumes "Lock_ctor pf t this e bc bw s = Inr s'"
  shows "trace s' = trace s @
     ((case cpu_timer_thread s t of None \<Rightarrow> []
       | Some c \<Rightarrow> [MutexLock (ct_executor (cpu_timers s c)),
           Rd (ct_executor (cpu_timers s c)) F_cpu_time, Wr (ct_executor (cpu_timers s c)) F_cpu_time,
           Rd (ct_executor (cpu_timers s c)) F_cpu_timer, Wr (ct_executor (cpu_timers s c)) F_cpu_timer,
           MutexUnlock (ct_executor (cpu_timers s c))]) @
      Rd e F_wall_timer #
      (if wall_timer (executors s e) = None then [MutexLock e, Wr e F_wall_timer, MutexUnlock e]
       else [])) @
     [LockerAcquire e, MutexLock e, Rd e F_cpu_timer, Wr e F_cpu_timer, MutexUnlock e]"
  using assms by (auto simp: unfold_ops split: if_splits option.splits)

lemma Lock_ctor_charge:
  assumes "Lock_ctor pf t this e bc bw s = Inr s'"
  shows "cpu_timer (executors s' e) = Some this"
    and "ct_time (cpu_timers s' this) =
           now_of pf t s + (if USE_CLOCK_THREAD_CPUTIME_ID pf then int bc else int bw)"
    and "now_of pf t s' = now_of pf t s + (if USE_CLOCK_THREAD_CPUTIME_ID pf then int bc else int bw)"
    and "cpu_timer_thread s t = Some c \<Longrightarrow>
           cpu_time (executors s' (ct_executor (cpu_timers s c))) =
             cpu_time (executors s (ct_executor (cpu_timers s c))) +
               (now_of pf t s - ct_time (cpu_timers s c))"
    and "cpu_timer_thread s t = Some c \<Longrightarrow> ct_executor (cpu_timers s c) \<noteq> e \<Longrightarrow>
           cpu_timer (executors s' (ct_executor (cpu_timers s c))) = None"
  using assms by (auto simp: unfold_ops now_of_def split: if_splits option.splits)

lemma Lock_dtor_trace:
  assumes "Lock_dtor pf t this s = Inr s'"
  shows "trace s' = trace s @
     [MutexLock (ct_executor (cpu_timers s this)),
      Rd (ct_executor (cpu_timers s this)) F_cpu_time, Wr (ct_executor (cpu_timers s this)) F_cpu_time,
      Rd (ct_executor (cpu_timers s this)) F_cpu_timer, Wr (ct_executor (cpu_timers s this)) F_cpu_timer,
      MutexUnlock (ct_executor (cpu_timers s this)), LockerRelease (lockers s this)] @
     (case wt_cpu_timer (wall_timers s this) of None \<Rightarrow> []
      | Some c \<Rightarrow> [MutexLock (ct_executor (cpu_timers s c)),
           Rd (ct_executor (cpu_timers s c)) F_cpu_timer, Wr (ct_executor (cpu_timers s c)) F_cpu_timer,
           MutexUnlock (ct_executor (cpu_timers s c))]) @
     Rd (wt_executor (wall_timers s this)) F_wall_timer #
     (if wall_timer (executors s (wt_executor (wall_timers s this))) = Some this
      then [MutexLock (wt_executor (wall_timers s this)), Wr (wt_executor (wall_timers s this)) F_wall_timer,
            Rd (wt_executor (wall_timers s this)) F_wall_time, Wr (wt_executor (wall_timers s this)) F_wall_time,
            MutexUnlock (wt_executor (wall_timers s this))]
      else [])"
  using assms by (auto simp: unfold_ops split: if_splits option.splits)

lemma Lock_dtor_charge:
  assumes "Lock_dtor pf t this s = Inr s'"
  shows "cpu_time (executors s' (ct_executor (cpu_timers s this))) =
           cpu_time (executors s (ct_executor (cpu_timers s this))) +
             (now_of pf t s - ct_time (cpu_timers s this))"
    and "wt_cpu_timer (wall_timers s this) = Some c \<Longrightarrow>
           cpu_timer (executors s' (ct_executor (cpu_timers s c))) = Some c \<and>
           ct_time (cpu_timers s' c) = now_of pf t s"
  using assms by (auto simp: unfold_ops now_of_def split: if_splits option.splits)

text \<open>
  C1. In the construction of \<^verbatim>\<open>Lock\<close> the pause of the thread's current CpuTimer (its
  write of \<open>cpu_timer\<close>) comes before the one acquisition of the isolate locker, and the
  installation of the new CpuTimer is all that comes after it. The previous executor is
  charged up to the clock reading on entry, whatever the time \<open>bc\<close>, \<open>bw\<close> spent waiting
  for the locker, and the new timer's time stamp is the reading after the wait. The
  destruction flushes and removes the new timer before the locker is released and
  resumes the previous timer, with a fresh time stamp, after the release.
\<close>

theorem Lock_orders_timers_around_locker:
  "(\<forall>s'. Lock_ctor pf t this e bc bw s = Inr s' \<longrightarrow>
      (\<exists>pre. trace s' = trace s @ pre @
           [LockerAcquire e, MutexLock e, Rd e F_cpu_timer, Wr e F_cpu_timer, MutexUnlock e] \<and>
         LockerAcquire e \<notin> set pre \<and>
         (\<forall>c. cpu_timer_thread s t = Some c \<longrightarrow>
            Wr (ct_executor (cpu_timers s c)) F_cpu_timer \<in> set pre)) \<and>
      (\<forall>c. cpu_timer_thread s t = Some c \<longrightarrow>
         cpu_time (executors s' (ct_executor (cpu_timers s c))) =
           cpu_time (executors s (ct_executor (cpu_timers s c))) +
             (now_of pf t s - ct_time (cpu_timers s c)) \<and>
         (ct_executor (cpu_timers s c) \<noteq> e \<longrightarrow>
            cpu_timer (executors s' (ct_executor (cpu_timers s c))) = None)) \<and>
      cpu_timer (executors s' e) = Some this \<and>
      now_of pf t s' = now_of pf t s + (if USE_CLOCK_THREAD_CPUTIME_ID pf then int bc else int bw) \<and>
      ct_time (cpu_timers s' this) = now_of pf t s') \<and>
   (\<forall>s'. Lock_dtor pf t this s = Inr s' \<longrightarrow>
      (\<exists>post. trace s' = trace s @
           [MutexLock (ct_executor (cpu_timers s this)),
            Rd (ct_executor (cpu_timers s this)) F_cpu_time,
            Wr (ct_executor (cpu_timers s this)) F_cpu_time,
            Rd (ct_executor (cpu_timers s this)) F_cpu_timer,
            Wr (ct_executor (cpu_timers s this)) F_cpu_timer,
            MutexUnlock (ct_executor (cpu_timers s this)), LockerRelease (lockers s this)] @ post \<and>
         LockerRelease (lockers s this) \<notin> set post \<and>
         (\<forall>c. wt_cpu_timer (wall_timers s this) = Some c \<longrightarrow>
            Wr (ct_executor (cpu_timers s c)) F_cpu_timer \<in> set post)) \<and>
      cpu_time (executors s' (ct_executor (cpu_timers s this))) =
        cpu_time (executors s (ct_executor (cpu_timers s this))) +
          (now_of pf t s - ct_time (cpu_timers s this)) \<and>
      (\<forall>c. wt_cpu_timer (wall_timers s this) = Some c \<longrightarrow>
         cpu_timer (executors s' (ct_executor (cpu_timers s c))) = Some c \<and>
         ct_time (cpu_timers s' c) = now_of pf t s'))"
proof (intro conjI allI impI)
  fix s'
  assume a: "Lock_ctor pf t this e bc bw s = Inr s'"
  let ?pre = "(case cpu_timer_thread s t of None \<Rightarrow> []
       | Some c \<Rightarrow> [MutexLock (ct_executor (cpu_timers s c)),
           Rd (ct_executor (cpu_timers s c)) F_cpu_time, Wr (ct_executor (cpu_timers s c)) F_cpu_time,
           Rd (ct_executor (cpu_timers s c)) F_cpu_timer, Wr (ct_executor (cpu_timers s c)) F_cpu_timer,
           MutexUnlock (ct_executor (cpu_timers s c))]) @
      Rd e F_wall_timer #
      (if wall_timer (executors s e) = None then [MutexLock e, Wr e F_wall_timer, MutexUnlock e]
       else [])"
  have 1: "trace s' = trace s @ ?pre @
           [LockerAcquire e, MutexLock e, Rd e F_cpu_timer, Wr e F_cpu_timer, MutexUnlock e]"
    using Lock_ctor_trace [OF a] by simp
  have 2: "LockerAcquire e \<notin> set ?pre" by (simp split: option.splits)
  have 3: "\<forall>c. cpu_timer_thread s t = Some c \<longrightarrow>
            Wr (ct_executor (cpu_timers s c)) F_cpu_timer \<in> set ?pre" by simp
  show "\<exists>pre. trace s' = trace s @ pre @
           [LockerAcquire e, MutexLock e, Rd e F_cpu_timer, Wr e F_cpu_timer, MutexUnlock e] \<and>
         LockerAcquire e \<notin> set pre \<and>
         (\<forall>c. cpu_timer_thread s t = Some c \<longrightarrow>
            Wr (ct_executor (cpu_timers s c)) F_cpu_timer \<in> set pre)"
    using 1 2 3 by blast
  show "cpu_timer (executors s' e) = Some this" by (rule Lock_ctor_charge(1) [OF a])
  show "now_of pf t s' = now_of pf t s + (if USE_CLOCK_THREAD_CPUTIME_ID pf then int bc else int bw)"
    by (rule Lock_ctor_charge(3) [OF a])
  show "ct_time (cpu_timers s' this) = now_of pf t s'"
    using Lock_ctor_charge(2,3) [OF a] by simp
  fix c
  assume h: "cpu_timer_thread s t = Some c"
  show "cpu_time (executors s' (ct_executor (cpu_timers s c))) =
           cpu_time (executors s (ct_executor (cpu_timers s c))) +
             (now_of pf t s - ct_time (cpu_timers s c))"
    by (rule Lock_ctor_charge(4) [OF a h])
  assume "ct_executor (cpu_timers s c) \<noteq> e"
  then show "cpu_timer (executors s' (ct_executor (cpu_timers s c))) = None"
    by (rule Lock_ctor_charge(5) [OF a h])
next
  fix s'
  assume a: "Lock_dtor pf t this s = Inr s'"
  let ?post = "(case wt_cpu_timer (wall_timers s this) of None \<Rightarrow> []
      | Some c \<Rightarrow> [MutexLock (ct_executor (cpu_timers s c)),
           Rd (ct_executor (cpu_timers s c)) F_cpu_timer, Wr (ct_executor (cpu_timers s c)) F_cpu_timer,
           MutexUnlock (ct_executor (cpu_timers s c))]) @
     Rd (wt_executor (wall_timers s this)) F_wall_timer #
     (if wall_timer (executors s (wt_executor (wall_timers s this))) = Some this
      then [MutexLock (wt_executor (wall_timers s this)), Wr (wt_executor (wall_timers s this)) F_wall_timer,
            Rd (wt_executor (wall_timers s this)) F_wall_time, Wr (wt_executor (wall_timers s this)) F_wall_time,
            MutexUnlock (wt_executor (wall_timers s this))]
      else [])"
  have 1: "trace s' = trace s @
           [MutexLock (ct_executor (cpu_timers s this)),
            Rd (ct_executor (cpu_timers s this)) F_cpu_time,
            Wr (ct_executor (cpu_timers s this)) F_cpu_time,
            Rd (ct_executor (cpu_timers s this)) F_cpu_timer,
            Wr (ct_executor (cpu_timers s this)) F_cpu_timer,
            MutexUnlock (ct_executor (cpu_timers s this)), LockerRelease (lockers s this)] @ ?post"
    using Lock_dtor_trace [OF a] by simp
  have 2: "LockerRelease (lockers s this) \<notin> set ?post" by (simp split: option.splits)
  have 3: "\<forall>c. wt_cpu_timer (wall_timers s this) = Some c \<longrightarrow>
            Wr (ct_executor (cpu_timers s c)) F_cpu_timer \<in> set ?post" by simp
  show "\<exists>post. trace s' = trace s @
           [MutexLock (ct_executor (cpu_timers s this)),
            Rd (ct_executor (cpu_timers s this)) F_cpu_time,
            Wr (ct_executor (cpu_timers s this)) F_cpu_time,
            Rd (ct_executor (cpu_timers s this)) F_cpu_timer,
            Wr (ct_executor (cpu_timers s this)) F_cpu_timer,
            MutexUnlock (ct_executor (cpu_timers s this)), LockerRelease (lockers s this)] @ post \<and>
         LockerRelease (lockers s this) \<notin> set post \<and>
         (\<forall>c. wt_cpu_timer (wall_timers s this) = Some c \<longrightarrow>
            Wr (ct_executor (cpu_timers s c)) F_cpu_timer \<in> set post)"
    using 1 2 3 by blast
  show "cpu_time (executors s' (ct_executor (cpu_timers s this))) =
        cpu_time (executors s (ct_executor (cpu_timers s this))) +
          (now_of pf t s - ct_time (cpu_timers s this))"
    by (rule Lock_dtor_charge(1) [OF a])
  fix c
  assume h: "wt_cpu_timer (wall_timers s this) = Some c"
  have n: "now_of pf t s' = now_of pf t s"
    using a by (auto simp: unfold_ops now_of_def split: if_splits option.splits)
  show "cpu_timer (executors s' (ct_executor (cpu_timers s c))) = Some c"
    and "ct_time (cpu_timers s' c) = now_of pf t s'"
    using Lock_dtor_charge(2) [OF a h] n by simp_all
qed

theorem Lock_orders_timers_around_locker_witness:
  "cpu_timer_thread (inside_Lock 1) 0 = Some 0 \<and>
   ct_executor (cpu_timers (inside_Lock 1) 0) = 1 \<and> (1::nat) \<noteq> 2 \<and>
   (\<exists>s1. Lock_ctor fallback 0 1 2 0 7 (inside_Lock 1) = Inr s1 \<and>
      cpu_time (executors s1 1) = cpu_time (executors (inside_Lock 1) 1) +
         (now_of fallback 0 (inside_Lock 1) - ct_time (cpu_timers (inside_Lock 1) 0)) \<and>
      cpu_timer (executors s1 1) = None \<and> cpu_timer (executors s1 2) = Some 1 \<and>
      now_of fallback 0 s1 = now_of fallback 0 (inside_Lock 1) + 7 \<and>
      ct_time (cpu_timers s1 1) = now_of fallback 0 s1 \<and>
      wt_cpu_timer (wall_timers s1 1) = Some 0 \<and> ct_executor (cpu_timers s1 0) = 1 \<and>
      ct_executor (cpu_timers s1 1) = 2 \<and>
      (\<exists>s2. Lock_dtor fallback 0 1 s1 = Inr s2 \<and>
         cpu_time (executors s2 2) = cpu_time (executors s1 2) +
            (now_of fallback 0 s1 - ct_time (cpu_timers s1 1)) \<and>
         cpu_timer (executors s2 1) = Some 0 \<and> ct_time (cpu_timers s2 0) = now_of fallback 0 s2))"
proof -
  have a: "cpu_timer_thread (inside_Lock 1) 0 = Some 0" "ct_executor (cpu_timers (inside_Lock 1) 0) = 1"
    by (simp_all add: inside_Lock_def run_simps unfold_ops)
  obtain s1 s2 where b: "Lock_ctor fallback 0 1 2 0 7 (inside_Lock 1) = Inr s1"
    and b': "wt_cpu_timer (wall_timers s1 1) = Some 0" "ct_executor (cpu_timers s1 0) = 1"
       "ct_executor (cpu_timers s1 1) = 2"
    and c: "Lock_dtor fallback 0 1 s1 = Inr s2"
    by (simp add: inside_Lock_def run_simps unfold_ops)
  have u: "USE_CLOCK_THREAD_CPUTIME_ID fallback = False" by (simp add: fallback_def)
  note T1 = Lock_orders_timers_around_locker [of fallback 0 1 2 0 7 "inside_Lock 1"]
  note T2 = Lock_orders_timers_around_locker [of fallback 0 1 2 0 7 s1]
  have p1: "cpu_time (executors s1 1) = cpu_time (executors (inside_Lock 1) 1) +
         (now_of fallback 0 (inside_Lock 1) - ct_time (cpu_timers (inside_Lock 1) 0)) \<and>
      cpu_timer (executors s1 1) = None \<and> cpu_timer (executors s1 2) = Some 1 \<and>
      now_of fallback 0 s1 = now_of fallback 0 (inside_Lock 1) + 7 \<and>
      ct_time (cpu_timers s1 1) = now_of fallback 0 s1"
    using T1 a b u by auto
  have p2: "cpu_time (executors s2 2) = cpu_time (executors s1 2) +
            (now_of fallback 0 s1 - ct_time (cpu_timers s1 1)) \<and>
         cpu_timer (executors s2 1) = Some 0 \<and> ct_time (cpu_timers s2 0) = now_of fallback 0 s2"
    using T2 b' c by auto
  have z: "(1::nat) \<noteq> 2" by simp
  show ?thesis using a z b b' c p1 p2 by blast
qed

section \<open>The timer mutex\<close>

lemma new_events_append [simp]: "trace s' = trace s @ es \<Longrightarrow> new_events s s' = es"
  by (simp add: new_events_def)

lemma step_unguarded:
  assumes "step pf t x s = Inr s'"
  shows "(\<forall>ev \<in> set (unguarded [] (new_events s s')).
            \<exists>e. ev = Rd e F_wall_timer \<or> ev = Rd e F_cpu_timer) \<and>
         ((\<exists>a e. x = CpuTimer_new a e) \<or> (\<exists>a. x = CpuTimer_delete a) \<or>
          (\<exists>a. x = CpuTimer_Pause a) \<or> (\<exists>a. x = CpuTimer_Resume a) \<longrightarrow>
            unguarded [] (new_events s s') = [])"
  using assms
  by (cases x) (auto simp: unfold_ops Executor_ctor_def new_events_def split: if_splits option.splits)

text \<open>
  C3 (as amended). Every write of \<open>cpu_time\<close>, \<open>wall_time\<close>, \<open>cpu_timer\<close> and
  \<open>wall_timer\<close>, every read of \<open>cpu_time\<close> and \<open>wall_time\<close>, and every access made by
  the construction, destruction, Pause and Resume of a CpuTimer happens while that
  executor's \<^verbatim>\<open>timer_mutex\<close> is held. The only accesses made without it are reads of
  \<open>wall_timer\<close> and of \<open>cpu_timer\<close>.
\<close>

theorem writes_under_timer_mutex:
  "step pf t x s = Inr s' \<Longrightarrow>
     (\<forall>e f. Wr e f \<notin> set (unguarded [] (new_events s s'))) \<and>
     (\<forall>e. Rd e F_cpu_time \<notin> set (unguarded [] (new_events s s')) \<and>
          Rd e F_wall_time \<notin> set (unguarded [] (new_events s s'))) \<and>
     ((\<exists>a e. x = CpuTimer_new a e) \<or> (\<exists>a. x = CpuTimer_delete a) \<or>
      (\<exists>a. x = CpuTimer_Pause a) \<or> (\<exists>a. x = CpuTimer_Resume a) \<longrightarrow>
        unguarded [] (new_events s s') = [])"
  using step_unguarded [of pf t x s s'] by auto

theorem writes_under_timer_mutex_witness:
  "(\<exists>s1. step posix 0 (Lock_new 1 2 0 0) (inside_Lock 1) = Inr s1 \<and>
      Wr 1 F_cpu_time \<notin> set (unguarded [] (new_events (inside_Lock 1) s1)) \<and>
      Rd 1 F_cpu_time \<notin> set (unguarded [] (new_events (inside_Lock 1) s1)) \<and>
      Wr 1 F_cpu_time \<in> set (new_events (inside_Lock 1) s1) \<and>
      (\<exists>s2. step posix 0 (CpuTimer_delete 1) s1 = Inr s2 \<and>
         unguarded [] (new_events s1 s2) = [] \<and> Wr 2 F_cpu_timer \<in> set (new_events s1 s2)))"
proof -
  obtain s1 s2 where a: "step posix 0 (Lock_new 1 2 0 0) (inside_Lock 1) = Inr s1"
    and a': "Wr 1 F_cpu_time \<in> set (new_events (inside_Lock 1) s1)"
    and b: "step posix 0 (CpuTimer_delete 1) s1 = Inr s2"
    and b': "Wr 2 F_cpu_timer \<in> set (new_events s1 s2)"
    by (simp add: inside_Lock_def run_simps unfold_ops new_events_def)
  have c: "\<exists>a. CpuTimer_delete 1 = CpuTimer_delete a" by simp
  from writes_under_timer_mutex [OF a] writes_under_timer_mutex [OF b] a a' b b' c
  show ?thesis by blast
qed

text \<open>
  C3 as stated fails: the constructor of WallTimer tests \<open>wall_timer\<close> (line 81) before
  the lock guard of line 82 exists, its destructor does the same (lines 94, 95), and
  the constructor of \<^verbatim>\<open>Unlock\<close> reads \<open>cpu_timer\<close> (line 126) with no guard at all.
\<close>

theorem timer_mutex_counterexample:
  "map_sum id (\<lambda>s'. unguarded [] (new_events init s')) (WallTimer_ctor posix 0 0 0 init) =
     Inr [Rd 0 F_wall_timer] \<and>
   map_sum id (\<lambda>s'. unguarded [] (new_events (inside_Lock 1) s'))
     (WallTimer_dtor posix 0 0 (inside_Lock 1)) = Inr [Rd 1 F_wall_timer] \<and>
   map_sum id (\<lambda>s'. unguarded [] (new_events (inside_Lock 1) s'))
     (Unlock_ctor posix 0 1 1 (inside_Lock 1)) = Inr [Rd 1 F_cpu_timer]"
  by (simp add: inside_Lock_def run_simps unfold_ops new_events_def)

section \<open>A paused executor is not charged\<close>

lemma wf_timers_upd [simp]:
  "wf_timers L t (s\<lparr>wall_timers := a3\<rparr>) = wf_timers L t s"
  "wf_timers L t (s\<lparr>scopes := a4\<rparr>) = wf_timers L t s"
  "wf_timers L t (s\<lparr>lockers := a5\<rparr>) = wf_timers L t s"
  "wf_timers L t (s\<lparr>pause_scopes := a6\<rparr>) = wf_timers L t s"
  "wf_timers L t (s\<lparr>unlockers := a7\<rparr>) = wf_timers L t s"
  "wf_timers L t (s\<lparr>current_executor := a8\<rparr>) = wf_timers L t s"
  "wf_timers L t (s\<lparr>trace := a10\<rparr>) = wf_timers L t s"
  "wf_timers L t (s\<lparr>thread_cputime := a11\<rparr>) = wf_timers L t s"
  "wf_timers L t (s\<lparr>steady_clock := a12\<rparr>) = wf_timers L t s"
  by (simp_all add: wf_timers_def)

lemma wf_timers_wall [simp]:
  "wf_timers L t (s\<lparr>executors := (executors s)(e := (executors s e)\<lparr>wall_timer := x\<rparr>)\<rparr>) = wf_timers L t s"
  "wf_timers L t (s\<lparr>executors := (executors s)(e := (executors s e)\<lparr>wall_timer := x, wall_time := y\<rparr>)\<rparr>)
     = wf_timers L t s"
  by (auto simp: wf_timers_def)
















lemma wf_timers_Scope [simp]:
  "wf_timers L t (Scope_ctor t d e s) = wf_timers L t s"
  "wf_timers L t (Scope_dtor t d s) = wf_timers L t s"
  "wf_timers L t (Locker_ctor t d e bc bw s) = wf_timers L t s"
  "wf_timers L t (Locker_dtor d s) = wf_timers L t s"
  "wf_timers L t (Unlocker_ctor d e s) = wf_timers L t s"
  "wf_timers L t (Unlocker_dtor t d bc bw s) = wf_timers L t s"
  "wf_timers L t (tick t c w s) = wf_timers L t s"
  "wf_timers L t (emit es s) = wf_timers L t s"
  by (simp_all add: Scope_ctor_def Scope_dtor_def Locker_ctor_def Locker_dtor_def Unlocker_ctor_def
      Unlocker_dtor_def tick_def emit_def Let_def)






















section \<open>The quota timer\<close>

lemma cu_upd [simp]:
  "charging_unpaused (s\<lparr>wall_timers := a3\<rparr>) = charging_unpaused s"
  "charging_unpaused (s\<lparr>cpu_timers := a2\<rparr>) = charging_unpaused s"
  "charging_unpaused (s\<lparr>scopes := a4\<rparr>) = charging_unpaused s"
  "charging_unpaused (s\<lparr>lockers := a5\<rparr>) = charging_unpaused s"
  "charging_unpaused (s\<lparr>pause_scopes := a6\<rparr>) = charging_unpaused s"
  "charging_unpaused (s\<lparr>unlockers := a7\<rparr>) = charging_unpaused s"
  "charging_unpaused (s\<lparr>current_executor := a8\<rparr>) = charging_unpaused s"
  "charging_unpaused (s\<lparr>cpu_timer_thread := a9\<rparr>) = charging_unpaused s"
  "charging_unpaused (s\<lparr>trace := a10\<rparr>) = charging_unpaused s"
  "charging_unpaused (s\<lparr>thread_cputime := a11\<rparr>) = charging_unpaused s"
  "charging_unpaused (s\<lparr>steady_clock := a12\<rparr>) = charging_unpaused s"
  by (simp_all add: charging_unpaused_def)

lemma cu_simple [simp]:
  "charging_unpaused (Scope_ctor t d e s) = charging_unpaused s"
  "charging_unpaused (Scope_dtor t d s) = charging_unpaused s"
  "charging_unpaused (Locker_ctor t d e bc bw s) = charging_unpaused s"
  "charging_unpaused (Locker_dtor d s) = charging_unpaused s"
  "charging_unpaused (Unlocker_ctor d e s) = charging_unpaused s"
  "charging_unpaused (Unlocker_dtor t d bc bw s) = charging_unpaused s"
  "charging_unpaused (tick t c w s) = charging_unpaused s"
  "charging_unpaused (emit es s) = charging_unpaused s"
  by (simp_all add: Scope_ctor_def Scope_dtor_def Locker_ctor_def Locker_dtor_def Unlocker_ctor_def
      Unlocker_dtor_def tick_def emit_def Let_def)

lemma cu_wall [simp]:
  "charging_unpaused (s\<lparr>executors := (executors s)(e := (executors s e)\<lparr>wall_timer := x\<rparr>)\<rparr>)
     = charging_unpaused s"
  "charging_unpaused (s\<lparr>executors := (executors s)(e := (executors s e)\<lparr>wall_timer := x, wall_time := y\<rparr>)\<rparr>)
     = charging_unpaused s"
  by (auto simp: charging_unpaused_def)






















section \<open>Assertions\<close>





lemma view_of_upd [simp]:
  "view_of t (s\<lparr>wall_timers := a3\<rparr>) = view_of t s"
  "view_of t (s\<lparr>scopes := a4\<rparr>) = view_of t s"
  "view_of t (s\<lparr>lockers := a5\<rparr>) = view_of t s"
  "view_of t (s\<lparr>pause_scopes := a6\<rparr>) = view_of t s"
  "view_of t (s\<lparr>unlockers := a7\<rparr>) = view_of t s"
  "view_of t (s\<lparr>current_executor := a8\<rparr>) = view_of t s"
  "view_of t (s\<lparr>trace := a10\<rparr>) = view_of t s"
  "view_of t (s\<lparr>thread_cputime := a11\<rparr>) = view_of t s"
  "view_of t (s\<lparr>steady_clock := a12\<rparr>) = view_of t s"
  by (simp_all add: view_of_def cong: option.case_cong)

lemma view_of_simple [simp]:
  "view_of t (Scope_ctor t d e s) = view_of t s"
  "view_of t (Scope_dtor t d s) = view_of t s"
  "view_of t (Locker_ctor t d e bc bw s) = view_of t s"
  "view_of t (Locker_dtor d s) = view_of t s"
  "view_of t (Unlocker_ctor d e s) = view_of t s"
  "view_of t (Unlocker_dtor t d bc bw s) = view_of t s"
  "view_of t (tick t c w s) = view_of t s"
  "view_of t (emit es s) = view_of t s"
  by (simp_all add: Scope_ctor_def Scope_dtor_def Locker_ctor_def Locker_dtor_def Unlocker_ctor_def
      Unlocker_dtor_def tick_def emit_def Let_def)

lemma view_of_wall [simp]:
  "view_of t (s\<lparr>executors := (executors s)(e := (executors s e)\<lparr>wall_timer := x\<rparr>)\<rparr>) = view_of t s"
  "view_of t (s\<lparr>executors := (executors s)(e := (executors s e)\<lparr>wall_timer := x, wall_time := y\<rparr>)\<rparr>)
     = view_of t s"
  by (auto simp: view_of_def split: option.splits)


lemma view_charged [simp]: "charged (view_of t s) e \<longleftrightarrow> cpu_timer (executors s e) \<noteq> None"
  by (simp add: view_of_def)


















end
